theory Spec2Isabelle
  imports Main
begin

section \<open>Text utilities of the client: address extraction and tag stripping\<close>














text \<open>
  \<^verbatim>\<open>htmlBody.replace(/<[^>]*>/g, "")\<close>: at an opening angle bracket the match runs to
  the next closing one, whatever lies between (the negated class also matches line
  breaks); when no closing bracket follows, the attempt fails and the character stays.
\<close>

function strip_tags :: "string \<Rightarrow> string" where
  "strip_tags [] = []"
| "strip_tags (c # cs) =
     (if c = CHR ''<''
      then (case dropWhile (\<lambda>x. x \<noteq> CHR ''>'') cs of
              [] \<Rightarrow> c # strip_tags cs
            | g # rest \<Rightarrow> strip_tags rest)
      else c # strip_tags cs)"
  by pat_completeness auto
termination
proof (relation "measure length")
  show "wf (measure length)" by simp
next
  fix c :: char and cs :: string
  show "(cs, c # cs) \<in> measure length" by simp
next
  fix c :: char and cs g rest
  assume "dropWhile (\<lambda>x. x \<noteq> CHR ''>'') cs = g # rest"
  then have "length (g # rest) \<le> length cs"
    by (metis length_dropWhile_le)
  then show "(rest, c # cs) \<in> measure length" by simp
next
  fix c :: char and cs :: string
  show "(cs, c # cs) \<in> measure length" by simp
qed

section \<open>Shared schema\<close>

text \<open>
  Values as \<^verbatim>\<open>JSON.parse\<close> produces them. An object is its list of entries, read
  by key with \<open>map_of\<close> (a parsed object has one entry per key);
  \<^verbatim>\<open>undefined\<close> is \<open>None\<close> of \<open>json option\<close>. The only number of the schema is the
  port, which is passed on untouched, so numbers are integers here.
\<close>

datatype json =
    JNull
  | JBool bool
  | JNum int
  | JStr string
  | JArr "json list"
  | JObj "(string \<times> json) list"

type_synonym js_value = "json option"

datatype path_elem = Key string | Idx nat

record ZodIssue =
  code :: string
  path :: "path_elem list"
  message :: string

text \<open>The name the validation library gives to the type of a value.\<close>

fun parsedType :: "js_value \<Rightarrow> string" where
  "parsedType None = ''undefined''"
| "parsedType (Some JNull) = ''null''"
| "parsedType (Some (JBool b)) = ''boolean''"
| "parsedType (Some (JNum n)) = ''number''"
| "parsedType (Some (JStr s)) = ''string''"
| "parsedType (Some (JArr xs)) = ''array''"
| "parsedType (Some (JObj kvs)) = ''object''"

definition invalid_type :: "path_elem list \<Rightarrow> string \<Rightarrow> js_value \<Rightarrow> ZodIssue" where
  "invalid_type p expected v =
     \<lparr>code = ''invalid_type'', path = p,
      message = (if v = None then ''Required''
                 else ''Expected '' @ expected @ '', received '' @ parsedType v)\<rparr>"

definition too_small :: "path_elem list \<Rightarrow> string \<Rightarrow> ZodIssue" where
  "too_small p msg = \<lparr>code = ''too_small'', path = p, message = msg\<rparr>"

definition invalid_string :: "path_elem list \<Rightarrow> string \<Rightarrow> ZodIssue" where
  "invalid_string p msg = \<lparr>code = ''invalid_string'', path = p, message = msg\<rparr>"

text \<open>
  A schema applied to the value found at a path gives the issues it raises (\<open>Inl\<close>) or
  the parsed value (\<open>Inr\<close>). The library's test for an email address is not part of
  this repository; it is the parameter \<open>em\<close> of every schema that uses it.
\<close>

type_synonym 'a parse_result = "ZodIssue list + 'a"

fun issues_of :: "'a parse_result \<Rightarrow> ZodIssue list" where
  "issues_of (Inl is) = is"
| "issues_of (Inr v) = []"

text \<open>\<^verbatim>\<open>z.string()\<close>\<close>

fun z_string :: "path_elem list \<Rightarrow> js_value \<Rightarrow> string parse_result" where
  "z_string p (Some (JStr s)) = Inr s"
| "z_string p v = Inl [invalid_type p ''string'' v]"

text \<open>\<^verbatim>\<open>z.string().min(1, msg)\<close>\<close>

fun z_string_min1 :: "string \<Rightarrow> path_elem list \<Rightarrow> js_value \<Rightarrow> string parse_result" where
  "z_string_min1 msg p (Some (JStr s)) = (if length s < 1 then Inl [too_small p msg] else Inr s)"
| "z_string_min1 msg p v = Inl [invalid_type p ''string'' v]"

text \<open>\<^verbatim>\<open>z.string().email()\<close>\<close>

fun z_string_email :: "(string \<Rightarrow> bool) \<Rightarrow> path_elem list \<Rightarrow> js_value \<Rightarrow> string parse_result" where
  "z_string_email em p (Some (JStr s)) =
     (if em s then Inr s else Inl [invalid_string p ''Invalid email''])"
| "z_string_email em p v = Inl [invalid_type p ''string'' v]"

text \<open>\<^verbatim>\<open>z.number()\<close>\<close>

fun z_number :: "path_elem list \<Rightarrow> js_value \<Rightarrow> int parse_result" where
  "z_number p (Some (JNum n)) = Inr n"
| "z_number p v = Inl [invalid_type p ''number'' v]"

text \<open>\<^verbatim>\<open>.default(d)\<close>: the default stands in for \<^verbatim>\<open>undefined\<close> only.\<close>

definition z_default ::
  "json \<Rightarrow> (path_elem list \<Rightarrow> js_value \<Rightarrow> 'a parse_result) \<Rightarrow> path_elem list \<Rightarrow> js_value
   \<Rightarrow> 'a parse_result" where
  "z_default d inner p v = inner p (case v of None \<Rightarrow> Some d | Some j \<Rightarrow> Some j)"

text \<open>\<^verbatim>\<open>.optional()\<close>\<close>

definition z_optional ::
  "(path_elem list \<Rightarrow> js_value \<Rightarrow> 'a parse_result) \<Rightarrow> path_elem list \<Rightarrow> js_value
   \<Rightarrow> 'a option parse_result" where
  "z_optional inner p v =
     (case v of
        None \<Rightarrow> Inr None
      | Some j \<Rightarrow> (case inner p v of Inl is \<Rightarrow> Inl is | Inr x \<Rightarrow> Inr (Some x)))"

text \<open>
  The elements of an array, each parsed at its index; the issues of all elements are
  collected.
\<close>

fun z_elements ::
  "(path_elem list \<Rightarrow> js_value \<Rightarrow> 'a parse_result) \<Rightarrow> path_elem list \<Rightarrow> nat \<Rightarrow> json list
   \<Rightarrow> 'a list parse_result" where
  "z_elements inner p i [] = Inr []"
| "z_elements inner p i (x # xs) =
     (case (inner (p @ [Idx i]) (Some x), z_elements inner p (Suc i) xs) of
        (Inr y, Inr ys) \<Rightarrow> Inr (y # ys)
      | (r, rs) \<Rightarrow> Inl (issues_of r @ issues_of rs))"

text \<open>\<^verbatim>\<open>z.array(z.string().email())\<close>\<close>

fun z_email_array :: "(string \<Rightarrow> bool) \<Rightarrow> path_elem list \<Rightarrow> js_value \<Rightarrow> string list parse_result" where
  "z_email_array em p (Some (JArr xs)) = z_elements (z_string_email em) p 0 xs"
| "z_email_array em p v = Inl [invalid_type p ''array'' v]"

text \<open>
  \<^verbatim>\<open>z.array(z.string().email()).min(1, msg)\<close>: the length check adds its issue and the
  elements are parsed all the same.
\<close>

fun z_email_array_min1 ::
  "string \<Rightarrow> (string \<Rightarrow> bool) \<Rightarrow> path_elem list \<Rightarrow> js_value \<Rightarrow> string list parse_result" where
  "z_email_array_min1 msg em p (Some (JArr xs)) =
     (if length xs < 1
      then Inl (too_small p msg # issues_of (z_elements (z_string_email em) p 0 xs))
      else z_elements (z_string_email em) p 0 xs)"
| "z_email_array_min1 msg em p v = Inl [invalid_type p ''array'' v]"

record SMTPConfig =
  username :: string
  password :: string
  host :: string
  port :: int
  fromEmail :: string

definition default_host :: string where
  "default_host = ''smtp.zeptomail.in''"

definition default_fromEmail :: string where
  "default_fromEmail = ''crmsupport@legacylifespaces.com''"

fun smtpConfigSchema :: "(string \<Rightarrow> bool) \<Rightarrow> path_elem list \<Rightarrow> js_value \<Rightarrow> SMTPConfig parse_result" where
  "smtpConfigSchema em p (Some (JObj kvs)) =
     (let u = z_string_min1 ''Username is required'' (p @ [Key ''username'']) (map_of kvs ''username'');
          w = z_string_min1 ''Password is required'' (p @ [Key ''password'']) (map_of kvs ''password'');
          h = z_default (JStr default_host) z_string (p @ [Key ''host'']) (map_of kvs ''host'');
          n = z_default (JNum 587) z_number (p @ [Key ''port'']) (map_of kvs ''port'');
          f = z_default (JStr default_fromEmail) (z_string_email em) (p @ [Key ''fromEmail''])
                (map_of kvs ''fromEmail'')
      in case (u, w, h, n, f) of
           (Inr u', Inr w', Inr h', Inr n', Inr f') \<Rightarrow>
             Inr \<lparr>username = u', password = w', host = h', port = n', fromEmail = f'\<rparr>
         | _ \<Rightarrow> Inl (issues_of u @ issues_of w @ issues_of h @ issues_of n @ issues_of f))"
| "smtpConfigSchema em p v = Inl [invalid_type p ''object'' v]"

record SendEmailRequest =
  smtpConfig :: SMTPConfig
  recipients :: "string list"
  subject :: string
  htmlBody :: string
  textBody :: "string option"
  cc :: "string list option"
  bcc :: "string list option"

text \<open>The object handed to the schema: the seven keys of \<^verbatim>\<open>requestData\<close>.\<close>

record requestData =
  d_smtpConfig :: js_value
  d_recipients :: js_value
  d_subject :: js_value
  d_htmlBody :: js_value
  d_textBody :: js_value
  d_cc :: js_value
  d_bcc :: js_value

text \<open>\<^verbatim>\<open>sendEmailRequestSchema.safeParse(requestData)\<close>\<close>

definition sendEmailRequestSchema :: "(string \<Rightarrow> bool) \<Rightarrow> requestData \<Rightarrow> SendEmailRequest parse_result" where
  "sendEmailRequestSchema em d =
     (let c = smtpConfigSchema em [Key ''smtpConfig''] (d_smtpConfig d);
          r = z_email_array_min1 ''At least one recipient is required'' em [Key ''recipients'']
                (d_recipients d);
          s = z_string_min1 ''Subject is required'' [Key ''subject''] (d_subject d);
          h = z_string_min1 ''Email body is required'' [Key ''htmlBody''] (d_htmlBody d);
          t = z_optional z_string [Key ''textBody''] (d_textBody d);
          x = z_optional (z_email_array em) [Key ''cc''] (d_cc d);
          y = z_optional (z_email_array em) [Key ''bcc''] (d_bcc d)
      in case (c, r, s, h, t, x, y) of
           (Inr c', Inr r', Inr s', Inr h', Inr t', Inr x', Inr y') \<Rightarrow>
             Inr \<lparr>smtpConfig = c', recipients = r', subject = s', htmlBody = h', textBody = t',
                  cc = x', bcc = y'\<rparr>
         | _ \<Rightarrow> Inl (issues_of c @ issues_of r @ issues_of s @ issues_of h @ issues_of t
                     @ issues_of x @ issues_of y))"

datatype status_kind = pending | sending | sent | failed

record EmailStatus =
  email :: string
  status :: status_kind
  error :: "string option"

record SendEmailResponse =
  results :: "EmailStatus list"
  totalSent :: nat
  totalFailed :: nat

section \<open>The send-emails route\<close>

subsection \<open>The request, the mail service and the response\<close>

text \<open>
  A value caught by a \<^verbatim>\<open>catch\<close>: an \<^verbatim>\<open>Error\<close> with its message, a
  \<^verbatim>\<open>ZodError\<close> (an \<^verbatim>\<open>Error\<close> that carries issues), or anything else.
\<close>

datatype js_thrown = JsError string | JsZodError string "ZodIssue list" | JsOther

text \<open>\<^verbatim>\<open>error instanceof Error ? error.message : fallback\<close>\<close>

fun error_message :: "js_thrown \<Rightarrow> string \<Rightarrow> string" where
  "error_message (JsError m) fallback = m"
| "error_message (JsZodError m is) fallback = m"
| "error_message JsOther fallback = fallback"

text \<open>
  A form field that carries JSON text, by what \<^verbatim>\<open>JSON.parse\<close> makes of it: the empty
  string, text that is not JSON, or text that parses to a value. A field that is absent
  is \<^verbatim>\<open>undefined\<close>, which \<^verbatim>\<open>JSON.parse\<close> rejects as well.
\<close>

datatype json_text = EmptyText | Malformed | Text json

fun JSON_parse :: "json_text option \<Rightarrow> json option" where
  "JSON_parse (Some (Text j)) = Some j"
| "JSON_parse t = None"

text \<open>\<^verbatim>\<open>str ? JSON.parse(str) : undefined\<close>; the outer \<open>None\<close> is the thrown syntax error.\<close>

fun JSON_parse_if_truthy :: "json_text option \<Rightarrow> js_value option" where
  "JSON_parse_if_truthy None = Some None"
| "JSON_parse_if_truthy (Some EmptyText) = Some None"
| "JSON_parse_if_truthy (Some Malformed) = None"
| "JSON_parse_if_truthy (Some (Text j)) = Some (Some j)"

record req_body =
  smtpConfigStr :: "json_text option"
  recipientsStr :: "json_text option"
  b_subject :: js_value
  b_htmlBody :: js_value
  b_textBody :: js_value
  ccStr :: "json_text option"
  bccStr :: "json_text option"

record multer_file =
  mimetype :: string
  originalname :: string
  buffer :: string

record request =
  body :: "req_body option"
  files :: "multer_file list option"

record attachment =
  filename :: string
  content :: string

record transport_options =
  t_host :: string
  t_port :: int
  t_secure :: bool
  t_user :: string
  t_pass :: string

record mailOptions =
  m_from :: string
  m_to :: string
  m_subject :: string
  m_html :: string
  m_text :: string
  m_cc :: "string list option"
  m_bcc :: "string list option"
  m_attachments :: "attachment list"

text \<open>
  What the handler asks of the mail library, in the order it asks. A transporter is
  named by the options it was created with; \<^verbatim>\<open>verify\<close>, \<^verbatim>\<open>sendMail\<close> and
  \<^verbatim>\<open>close\<close> are the methods the library offers on a transporter.
\<close>

datatype transport_call =
    createTransport transport_options
  | verify_call transport_options
  | sendMail_call transport_options mailOptions
  | close_call transport_options

text \<open>
  The surroundings of one request: the email test of the validation library, the
  outcome of \<^verbatim>\<open>transporter.verify()\<close>, and the outcome of the \<open>k\<close>-th call of
  \<^verbatim>\<open>transporter.sendMail\<close> in the batch (\<open>None\<close> when the promise resolves, the
  rejection otherwise).
\<close>

record env =
  zod_email :: "string \<Rightarrow> bool"
  verify :: "transport_options \<Rightarrow> js_thrown option"
  sendMail :: "nat \<Rightarrow> mailOptions \<Rightarrow> js_thrown option"

record json_reply =
  r_message :: string
  r_errors :: "ZodIssue list option"

text \<open>
  One unit written to the event stream is \<^verbatim>\<open>data: \<close> followed by the JSON text of an
  object and an empty line; the unit is kept here as the object.
\<close>

datatype sse_unit =
    StatusUnit EmailStatus
  | CompleteUnit SendEmailResponse
  | ErrorUnit string

text \<open>
  The response object: \<^verbatim>\<open>res.status(c).json(b)\<close> sets the status and the body and
  finishes the response; \<^verbatim>\<open>res.write\<close> appends a unit and \<^verbatim>\<open>res.end()\<close> finishes
  it. On a response object neither of the two throws.
\<close>

record response =
  statusCode :: nat
  json_body :: "json_reply option"
  headers :: "(string \<times> string) list"
  written :: "sse_unit list"
  ended :: bool

text \<open>The handler's variables, the response, and the calls made to the mail library.\<close>

record handler_state =
  sseStarted :: bool
  res :: response
  calls :: "transport_call list"
  l_results :: "EmailStatus list"
  l_totalSent :: nat
  l_totalFailed :: nat

definition initial_state :: handler_state where
  "initial_state =
     \<lparr>sseStarted = False,
      res = \<lparr>statusCode = 200, json_body = None, headers = [], written = [], ended = False\<rparr>,
      calls = [], l_results = [], l_totalSent = 0, l_totalFailed = 0\<rparr>"

definition res_json :: "nat \<Rightarrow> json_reply \<Rightarrow> handler_state \<Rightarrow> handler_state" where
  "res_json c b s = s\<lparr>res := (res s)\<lparr>statusCode := c, json_body := Some b, ended := True\<rparr>\<rparr>"

definition res_setHeader :: "string \<Rightarrow> string \<Rightarrow> handler_state \<Rightarrow> handler_state" where
  "res_setHeader k v s = s\<lparr>res := (res s)\<lparr>headers := headers (res s) @ [(k, v)]\<rparr>\<rparr>"

definition res_write :: "sse_unit \<Rightarrow> handler_state \<Rightarrow> handler_state" where
  "res_write u s = s\<lparr>res := (res s)\<lparr>written := written (res s) @ [u]\<rparr>\<rparr>"

definition res_end :: "handler_state \<Rightarrow> handler_state" where
  "res_end s = s\<lparr>res := (res s)\<lparr>ended := True\<rparr>\<rparr>"

definition call :: "transport_call \<Rightarrow> handler_state \<Rightarrow> handler_state" where
  "call c s = s\<lparr>calls := calls s @ [c]\<rparr>"

subsection \<open>Parsing and attachment checks\<close>

text \<open>
  The four \<^verbatim>\<open>JSON.parse\<close> calls share one \<^verbatim>\<open>try\<close>; \<open>None\<close> is its \<^verbatim>\<open>catch\<close>.
\<close>

definition parse_fields :: "req_body \<Rightarrow> requestData option" where
  "parse_fields b =
     (case (JSON_parse (smtpConfigStr b), JSON_parse (recipientsStr b),
            JSON_parse_if_truthy (ccStr b), JSON_parse_if_truthy (bccStr b)) of
        (Some c, Some r, Some x, Some y) \<Rightarrow>
          Some \<lparr>d_smtpConfig = Some c, d_recipients = Some r, d_subject = b_subject b,
                d_htmlBody = b_htmlBody b, d_textBody = b_textBody b, d_cc = x, d_bcc = y\<rparr>
      | _ \<Rightarrow> None)"

definition allowedFileTypes :: "string list" where
  "allowedFileTypes =
     [''application/pdf'',
      ''image/jpeg'',
      ''image/png'',
      ''image/gif'',
      ''application/msword'',
      ''application/vnd.openxmlformats-officedocument.wordprocessingml.document'',
      ''application/vnd.ms-excel'',
      ''application/vnd.openxmlformats-officedocument.spreadsheetml.sheet'',
      ''text/plain'',
      ''text/csv'']"

text \<open>
  The loop over the uploaded files: the first file of a type outside the list ends the
  request (\<open>Inl\<close> that file); otherwise every file becomes an attachment, in order.
\<close>

fun collect_attachments :: "multer_file list \<Rightarrow> attachment list \<Rightarrow> multer_file + attachment list" where
  "collect_attachments [] attachments = Inr attachments"
| "collect_attachments (file # rest) attachments =
     (if mimetype file \<notin> set allowedFileTypes then Inl file
      else collect_attachments rest
             (attachments @ [\<lparr>filename = originalname file, content = buffer file\<rparr>]))"

definition file_type_message :: "multer_file \<Rightarrow> string" where
  "file_type_message file =
     ''File type '' @ mimetype file @ '' is not allowed for file '' @ [CHR 0x22]
       @ originalname file @ [CHR 0x22]
       @ ''. Allowed types: PDF, images, Word, Excel, text files.''"

subsection \<open>The dispatch loop\<close>

definition mailOptions_of :: "SendEmailRequest \<Rightarrow> attachment list \<Rightarrow> string \<Rightarrow> mailOptions" where
  "mailOptions_of validatedData attachments recipient =
     \<lparr>m_from = fromEmail (smtpConfig validatedData),
      m_to = recipient,
      m_subject = subject validatedData,
      m_html = htmlBody validatedData,
      m_text = (case textBody validatedData of
                  Some t \<Rightarrow> if t \<noteq> [] then t else strip_tags (htmlBody validatedData)
                | None \<Rightarrow> strip_tags (htmlBody validatedData)),
      m_cc = cc validatedData,
      m_bcc = bcc validatedData,
      m_attachments = attachments\<rparr>"

fun is_sendMail :: "transport_call \<Rightarrow> bool" where
  "is_sendMail (sendMail_call t m) = True"
| "is_sendMail c = False"

text \<open>
  One round per recipient. The \<^verbatim>\<open>try\<close> writes the "sending" unit and awaits
  \<^verbatim>\<open>sendMail\<close>; when the promise resolves the "sent" status is pushed, counted and
  written, and when it rejects the \<^verbatim>\<open>catch\<close> pushes, counts and writes the "failed"
  status with the reason.
\<close>

fun send_loop ::
  "env \<Rightarrow> transport_options \<Rightarrow> SendEmailRequest \<Rightarrow> attachment list \<Rightarrow> string list
   \<Rightarrow> handler_state \<Rightarrow> handler_state" where
  "send_loop e transporter validatedData attachments [] s = s"
| "send_loop e transporter validatedData attachments (recipient # rest) s =
     (let s1 = res_write (StatusUnit \<lparr>email = recipient, status = sending, error = None\<rparr>) s;
          mo = mailOptions_of validatedData attachments recipient;
          k = length (filter is_sendMail (calls s1));
          s2 = call (sendMail_call transporter mo) s1
      in case sendMail e k mo of
           None \<Rightarrow>
             (let sentStatus = \<lparr>email = recipient, status = sent, error = None\<rparr>;
                  s3 = s2\<lparr>l_results := l_results s2 @ [sentStatus],
                          l_totalSent := l_totalSent s2 + 1\<rparr>
              in send_loop e transporter validatedData attachments rest (res_write (StatusUnit sentStatus) s3))
         | Some err \<Rightarrow>
             (let failedStatus = \<lparr>email = recipient, status = failed,
                                  error = Some (error_message err ''Unknown error'')\<rparr>;
                  s3 = s2\<lparr>l_results := l_results s2 @ [failedStatus],
                          l_totalFailed := l_totalFailed s2 + 1\<rparr>
              in send_loop e transporter validatedData attachments rest (res_write (StatusUnit failedStatus) s3)))"

subsection \<open>The handler\<close>

definition transport_options_of :: "SendEmailRequest \<Rightarrow> transport_options" where
  "transport_options_of validatedData =
     \<lparr>t_host = host (smtpConfig validatedData),
      t_port = port (smtpConfig validatedData),
      t_secure = False,
      t_user = username (smtpConfig validatedData),
      t_pass = password (smtpConfig validatedData)\<rparr>"

text \<open>Lines 110 to 165: the stream is opened, the batch is dispatched, the summary closes it.\<close>

definition stream_batch ::
  "env \<Rightarrow> transport_options \<Rightarrow> SendEmailRequest \<Rightarrow> attachment list \<Rightarrow> handler_state
   \<Rightarrow> handler_state" where
  "stream_batch e transporter validatedData attachments s =
     (let s1 = res_setHeader ''Content-Type'' ''text/event-stream'' s;
          s2 = res_setHeader ''Cache-Control'' ''no-cache'' s1;
          s3 = res_setHeader ''Connection'' ''keep-alive'' s2;
          s4 = s3\<lparr>sseStarted := True\<rparr>;
          s5 = send_loop e transporter validatedData attachments (recipients validatedData) s4;
          response = \<lparr>results = l_results s5, totalSent = l_totalSent s5,
                      totalFailed = l_totalFailed s5\<rparr>
      in res_end (res_write (CompleteUnit response) s5))"

definition destructure_message :: string where
  "destructure_message =
     ''Cannot destructure property 'smtpConfig' of 'req.body' as it is undefined.''"

text \<open>
  The body of the outer \<^verbatim>\<open>try\<close>: the state it leaves and what it threw, if anything.
  Every \<^verbatim>\<open>return res.status(..).json(..)\<close> leaves normally.
\<close>

definition send_emails_try :: "env \<Rightarrow> request \<Rightarrow> handler_state \<Rightarrow> handler_state \<times> js_thrown option" where
  "send_emails_try e req s =
     (case body req of
        None \<Rightarrow> (s, Some (JsError destructure_message))
      | Some b \<Rightarrow>
         (case parse_fields b of
            None \<Rightarrow>
              (res_json 400 \<lparr>r_message = ''Invalid JSON data in request'', r_errors = None\<rparr> s, None)
          | Some requestData \<Rightarrow>
             (case sendEmailRequestSchema (zod_email e) requestData of
                Inl errors \<Rightarrow>
                  (res_json 400 \<lparr>r_message = ''Invalid request data'', r_errors = Some errors\<rparr> s,
                   None)
              | Inr validatedData \<Rightarrow>
                 (case collect_attachments (case files req of None \<Rightarrow> [] | Some fs \<Rightarrow> fs) [] of
                    Inl file \<Rightarrow>
                      (res_json 400 \<lparr>r_message = file_type_message file, r_errors = None\<rparr> s, None)
                  | Inr attachments \<Rightarrow>
                     (let transporter = transport_options_of validatedData;
                          s1 = call (createTransport transporter) s;
                          s2 = call (verify_call transporter) s1
                      in case verify e transporter of
                           Some err \<Rightarrow>
                             (res_json 401
                                \<lparr>r_message =
                                   ''SMTP authentication failed. Please check your credentials.'',
                                 r_errors = None\<rparr> s2, None)
                         | None \<Rightarrow>
                             (stream_batch e transporter validatedData attachments s2, None))))))"

text \<open>The outer \<^verbatim>\<open>catch\<close>.\<close>

fun send_emails_catch :: "js_thrown \<Rightarrow> handler_state \<Rightarrow> handler_state" where
  "send_emails_catch err s =
     (if sseStarted s
      then res_end (res_write (ErrorUnit (error_message err ''Failed to send emails'')) s)
      else (case err of
              JsZodError m is \<Rightarrow>
                res_json 400 \<lparr>r_message = ''Invalid request data'', r_errors = Some is\<rparr> s
            | _ \<Rightarrow>
                res_json 500 \<lparr>r_message = error_message err ''Failed to send emails'',
                              r_errors = None\<rparr> s))"

definition send_emails :: "env \<Rightarrow> request \<Rightarrow> handler_state" where
  "send_emails e req =
     (case send_emails_try e req initial_state of
        (s, None) \<Rightarrow> s
      | (s, Some err) \<Rightarrow> send_emails_catch err s)"

section \<open>Properties of the dispatch loop\<close>

text \<open>
  The terminal status of the recipient served by the \<open>k\<close>-th call of the batch, and
  the statuses of a whole list of recipients served from call \<open>k\<close> on.
\<close>

definition outcome_status :: "env \<Rightarrow> SendEmailRequest \<Rightarrow> attachment list \<Rightarrow> nat \<Rightarrow> string \<Rightarrow> EmailStatus" where
  "outcome_status e v atts k r =
     (case sendMail e k (mailOptions_of v atts r) of
        None \<Rightarrow> \<lparr>email = r, status = sent, error = None\<rparr>
      | Some err \<Rightarrow> \<lparr>email = r, status = failed, error = Some (error_message err ''Unknown error'')\<rparr>)"

fun outcomes :: "env \<Rightarrow> SendEmailRequest \<Rightarrow> attachment list \<Rightarrow> nat \<Rightarrow> string list \<Rightarrow> EmailStatus list" where
  "outcomes e v atts k [] = []"
| "outcomes e v atts k (r # rs) = outcome_status e v atts k r # outcomes e v atts (Suc k) rs"

definition progress_units :: "EmailStatus list \<Rightarrow> sse_unit list" where
  "progress_units sts =
     concat (map (\<lambda>st. [StatusUnit \<lparr>email = email st, status = sending, error = None\<rparr>,
                         StatusUnit st]) sts)"

lemma send_loop_eq:
  "send_loop e t v atts rs s =
     s\<lparr>res := (res s)\<lparr>written := written (res s)
                  @ progress_units (outcomes e v atts (length (filter is_sendMail (calls s))) rs)\<rparr>,
       calls := calls s @ map (\<lambda>r. sendMail_call t (mailOptions_of v atts r)) rs,
       l_results := l_results s @ outcomes e v atts (length (filter is_sendMail (calls s))) rs,
       l_totalSent := l_totalSent s
          + length (filter (\<lambda>st. status st = sent)
              (outcomes e v atts (length (filter is_sendMail (calls s))) rs)),
       l_totalFailed := l_totalFailed s
          + length (filter (\<lambda>st. status st = failed)
              (outcomes e v atts (length (filter is_sendMail (calls s))) rs))\<rparr>"
proof (induction rs arbitrary: s)
  case Nil
  show ?case by (simp add: progress_units_def)
next
  case (Cons r rs)
  show ?case
    by (cases "sendMail e (length (filter is_sendMail (calls s))) (mailOptions_of v atts r)")
       (simp_all add: Cons.IH Let_def res_write_def call_def outcome_status_def progress_units_def)
qed


definition status_units :: "sse_unit list \<Rightarrow> EmailStatus list" where
  "status_units us = concat (map (\<lambda>u. case u of StatusUnit st \<Rightarrow> [st] | _ \<Rightarrow> []) us)"

definition sending_events :: "sse_unit list \<Rightarrow> EmailStatus list" where
  "sending_events us = filter (\<lambda>st. status st = sending) (status_units us)"

definition terminal_events :: "sse_unit list \<Rightarrow> EmailStatus list" where
  "terminal_events us = filter (\<lambda>st. status st = sent \<or> status st = failed) (status_units us)"

definition valid_request :: "env \<Rightarrow> request \<Rightarrow> SendEmailRequest \<Rightarrow> attachment list \<Rightarrow> bool" where
  "valid_request e req v atts =
     (case body req of
        None \<Rightarrow> False
      | Some b \<Rightarrow>
         (case parse_fields b of
            None \<Rightarrow> False
          | Some d \<Rightarrow>
              sendEmailRequestSchema (zod_email e) d = Inr v \<and>
              collect_attachments (case files req of None \<Rightarrow> [] | Some fs \<Rightarrow> fs) [] = Inr atts))"

lemma status_units_append: "status_units (xs @ ys) = status_units xs @ status_units ys"
  by (simp add: status_units_def)

lemma outcomes_email: "map email (outcomes e v atts k rs) = rs"
  by (induction rs arbitrary: k) (auto simp: outcome_status_def split: option.splits)

lemma outcomes_length: "length (outcomes e v atts k rs) = length rs"
  by (induction rs arbitrary: k) auto

lemma outcomes_terminal:
  "st \<in> set (outcomes e v atts k rs) \<Longrightarrow> status st = sent \<or> status st = failed"
  by (induction rs arbitrary: k) (auto simp: outcome_status_def split: option.splits)

lemma status_units_progress:
  "status_units (progress_units sts) =
     concat (map (\<lambda>st. [\<lparr>email = email st, status = sending, error = None\<rparr>, st]) sts)"
  by (induction sts) (simp_all add: progress_units_def status_units_def)

lemma sending_progress:
  "\<forall>st\<in>set sts. status st = sent \<or> status st = failed \<Longrightarrow>
   sending_events (progress_units sts) =
     map (\<lambda>st. \<lparr>email = email st, status = sending, error = None\<rparr>) sts"
  unfolding sending_events_def status_units_progress
  by (induction sts) auto

lemma terminal_progress:
  "\<forall>st\<in>set sts. status st = sent \<or> status st = failed \<Longrightarrow>
   terminal_events (progress_units sts) = sts"
  unfolding terminal_events_def status_units_progress
  by (induction sts) auto

lemma sent_failed_partition:
  "\<forall>st\<in>set sts. status st = sent \<or> status st = failed \<Longrightarrow>
   length (filter (\<lambda>st. status st = sent) sts) + length (filter (\<lambda>st. status st = failed) sts)
     = length sts"
  by (induction sts) auto

lemma send_emails_valid:
  assumes "valid_request e req v atts" and "verify e (transport_options_of v) = None"
  shows "send_emails e req =
           stream_batch e (transport_options_of v) v atts
             (call (verify_call (transport_options_of v))
                (call (createTransport (transport_options_of v)) initial_state))"
  using assms
  by (auto simp: valid_request_def send_emails_def send_emails_try_def Let_def
           split: option.splits)

lemma stream_batch_written:
  "written (res (stream_batch e t v atts s)) =
     written (res s)
       @ progress_units (outcomes e v atts (length (filter is_sendMail (calls s))) (recipients v))
       @ [CompleteUnit
            \<lparr>results = l_results s
                @ outcomes e v atts (length (filter is_sendMail (calls s))) (recipients v),
             totalSent = l_totalSent s
                + length (filter (\<lambda>st. status st = sent)
                    (outcomes e v atts (length (filter is_sendMail (calls s))) (recipients v))),
             totalFailed = l_totalFailed s
                + length (filter (\<lambda>st. status st = failed)
                    (outcomes e v atts (length (filter is_sendMail (calls s))) (recipients v)))\<rparr>]"
  by (simp add: stream_batch_def Let_def send_loop_eq res_write_def res_end_def res_setHeader_def)

lemma start_state_facts:
  "written (res (call (verify_call t) (call (createTransport t) initial_state))) = []"
  "filter is_sendMail (calls (call (verify_call t) (call (createTransport t) initial_state))) = []"
  "l_results (call (verify_call t) (call (createTransport t) initial_state)) = []"
  "l_totalSent (call (verify_call t) (call (createTransport t) initial_state)) = 0"
  "l_totalFailed (call (verify_call t) (call (createTransport t) initial_state)) = 0"
  by (simp_all add: call_def initial_state_def)

lemma send_emails_written:
  assumes "valid_request e req v atts" and "verify e (transport_options_of v) = None"
  shows "written (res (send_emails e req)) =
           progress_units (outcomes e v atts 0 (recipients v))
           @ [CompleteUnit
                \<lparr>results = outcomes e v atts 0 (recipients v),
                 totalSent = length (filter (\<lambda>st. status st = sent) (outcomes e v atts 0 (recipients v))),
                 totalFailed = length (filter (\<lambda>st. status st = failed) (outcomes e v atts 0 (recipients v)))\<rparr>]"
  by (simp add: send_emails_valid[OF assms] stream_batch_written start_state_facts)

text \<open>
  A concrete run: two recipients, the mail service rejects every message to the first
  and accepts the others.
\<close>

definition example_env :: env where
  "example_env =
     \<lparr>zod_email = (\<lambda>s. CHR ''@'' \<in> set s),
      verify = (\<lambda>t. None),
      sendMail = (\<lambda>k m. if m_to m = ''a@x.com'' then Some (JsError ''Mailbox unavailable'')
                           else None)\<rparr>"

definition example_body :: req_body where
  "example_body =
     \<lparr>smtpConfigStr = Some (Text (JObj [(''username'', JStr ''user''), (''password'', JStr ''secret'')])),
      recipientsStr = Some (Text (JArr [JStr ''a@x.com'', JStr ''b@x.com''])),
      b_subject = Some (JStr ''Hello''),
      b_htmlBody = Some (JStr ''<p>Hi</p>''),
      b_textBody = None,
      ccStr = None,
      bccStr = None\<rparr>"

definition example_request :: request where
  "example_request = \<lparr>body = Some example_body, files = Some []\<rparr>"

definition example_validated :: SendEmailRequest where
  "example_validated =
     \<lparr>smtpConfig = \<lparr>username = ''user'', password = ''secret'', host = default_host, port = 587,
                     fromEmail = default_fromEmail\<rparr>,
      recipients = [''a@x.com'', ''b@x.com''],
      subject = ''Hello'',
      htmlBody = ''<p>Hi</p>'',
      textBody = None,
      cc = None,
      bcc = None\<rparr>"

lemma example_valid: "valid_request example_env example_request example_validated []"
  by (simp add: valid_request_def example_env_def example_request_def example_body_def
        example_validated_def parse_fields_def sendEmailRequestSchema_def z_default_def
        z_optional_def default_host_def default_fromEmail_def)

lemma example_verified: "verify example_env (transport_options_of example_validated) = None"
  by (simp add: example_env_def)

text \<open>
  C1. For a request that passes validation and whose credentials are verified, with
  \<open>N\<close> recipients: the stream consists of one "sending" unit immediately followed by
  one terminal unit ("sent" or "failed") per recipient, then the summary. The addresses
  of the \<open>N\<close> "sending" units and of the \<open>N\<close> terminal units are the validated
  recipient list, in its order. The summary lists the terminal statuses, its
  \<open>totalSent\<close> and \<open>totalFailed\<close> count the "sent" and the "failed" ones, and the
  two add up to \<open>N\<close>.
\<close>

theorem dispatch_counts_and_order:
  assumes "valid_request e req v atts" and "verify e (transport_options_of v) = None"
  shows "\<exists>summary.
           written (res (send_emails e req))
             = progress_units (terminal_events (written (res (send_emails e req))))
               @ [CompleteUnit summary] \<and>
           map email (sending_events (written (res (send_emails e req)))) = recipients v \<and>
           map email (terminal_events (written (res (send_emails e req)))) = recipients v \<and>
           length (sending_events (written (res (send_emails e req)))) = length (recipients v) \<and>
           length (terminal_events (written (res (send_emails e req)))) = length (recipients v) \<and>
           results summary = terminal_events (written (res (send_emails e req))) \<and>
           totalSent summary
             = length (filter (\<lambda>st. status st = sent)
                 (terminal_events (written (res (send_emails e req))))) \<and>
           totalFailed summary
             = length (filter (\<lambda>st. status st = failed)
                 (terminal_events (written (res (send_emails e req))))) \<and>
           totalSent summary + totalFailed summary = length (recipients v)"
proof -
  let ?outs = "outcomes e v atts 0 (recipients v)"
  let ?w = "written (res (send_emails e req))"
  let ?summary = "\<lparr>results = ?outs,
                   totalSent = length (filter (\<lambda>st. status st = sent) ?outs),
                   totalFailed = length (filter (\<lambda>st. status st = failed) ?outs)\<rparr>"
  have tm: "\<forall>st\<in>set ?outs. status st = sent \<or> status st = failed"
    using outcomes_terminal by blast
  have w: "?w = progress_units ?outs @ [CompleteUnit ?summary]"
    by (rule send_emails_written[OF assms])
  have su: "status_units ?w = status_units (progress_units ?outs)"
    by (simp add: w status_units_append) (simp add: status_units_def)
  have te: "terminal_events ?w = ?outs"
    using terminal_progress[OF tm] by (simp add: terminal_events_def su)
  have se: "sending_events ?w = map (\<lambda>st. \<lparr>email = email st, status = sending, error = None\<rparr>) ?outs"
    using sending_progress[OF tm] by (simp add: sending_events_def su)
  have em: "map email (sending_events ?w) = recipients v"
    by (simp add: se comp_def outcomes_email)
  have "?w = progress_units (terminal_events ?w) @ [CompleteUnit ?summary]"
    using w te by simp
  moreover have "map email (terminal_events ?w) = recipients v"
    by (simp add: te outcomes_email)
  moreover have "length (sending_events ?w) = length (recipients v)"
    by (simp add: se outcomes_length)
  moreover have "length (terminal_events ?w) = length (recipients v)"
    by (simp add: te outcomes_length)
  moreover have "totalSent ?summary + totalFailed ?summary = length (recipients v)"
    using sent_failed_partition[OF tm] by (simp add: outcomes_length)
  ultimately show ?thesis
    using em te by (intro exI[of _ ?summary]) simp
qed


theorem dispatch_counts_and_order_witness:
  "valid_request example_env example_request example_validated [] \<and>
   verify example_env (transport_options_of example_validated) = None \<and>
   map email (sending_events (written (res (send_emails example_env example_request))))
     = [''a@x.com'', ''b@x.com''] \<and>
   map email (terminal_events (written (res (send_emails example_env example_request))))
     = [''a@x.com'', ''b@x.com'']"
  using dispatch_counts_and_order[OF example_valid example_verified] example_valid example_verified
  by (auto simp: example_validated_def)



subsection \<open>Isolation of failures\<close>

lemma outcomes_nth:
  "j < length rs \<Longrightarrow> outcomes e v atts k rs ! j = outcome_status e v atts (k + j) (rs ! j)"
proof (induction rs arbitrary: k j)
  case Nil
  then show ?case by simp
next
  case (Cons r rs)
  show ?case
  proof (cases j)
    case 0
    then show ?thesis by simp
  next
    case (Suc j')
    with Cons.prems have "j' < length rs" by simp
    from Cons.IH[OF this, of "Suc k"] Suc show ?thesis by simp
  qed
qed

lemma send_emails_terminal:
  assumes "valid_request e req v atts" and "verify e (transport_options_of v) = None"
  shows "terminal_events (written (res (send_emails e req))) = outcomes e v atts 0 (recipients v)"
proof -
  let ?outs = "outcomes e v atts 0 (recipients v)"
  have tm: "\<forall>st\<in>set ?outs. status st = sent \<or> status st = failed"
    using outcomes_terminal by blast
  have "status_units (written (res (send_emails e req))) = status_units (progress_units ?outs)"
    by (simp add: send_emails_written[OF assms] status_units_append) (simp add: status_units_def)
  then show ?thesis
    using terminal_progress[OF tm] by (simp add: terminal_events_def)
qed

lemma stream_batch_calls:
  "calls (stream_batch e t v atts s) =
     calls s @ map (\<lambda>r. sendMail_call t (mailOptions_of v atts r)) (recipients v)"
  by (simp add: stream_batch_def Let_def send_loop_eq res_write_def res_end_def res_setHeader_def)

lemma send_emails_calls:
  assumes "valid_request e req v atts" and "verify e (transport_options_of v) = None"
  shows "calls (send_emails e req) =
           createTransport (transport_options_of v) # verify_call (transport_options_of v)
             # map (\<lambda>r. sendMail_call (transport_options_of v) (mailOptions_of v atts r))
                 (recipients v)"
  by (simp add: send_emails_valid[OF assms] stream_batch_calls call_def initial_state_def)

lemma valid_request_sendMail_update:
  "valid_request (e\<lparr>sendMail := f\<rparr>) req v atts = valid_request e req v atts"
  by (simp add: valid_request_def split: option.splits)

fun is_Error :: "js_thrown \<Rightarrow> bool" where
  "is_Error JsOther = False"
| "is_Error e = True"

text \<open>
  C2. A failed delivery neither stops the batch nor touches another recipient. For a
  validated, verified request every recipient is handed to the mail library exactly
  once, in order. Changing the outcome of the \<open>i\<close>-th call alone (\<open>f\<close> agrees with
  the mail service at every other call) changes no call and no terminal status at any
  other position. A recipient whose call resolves ends "sent"; one whose call rejects
  ends "failed" with the reason taken from the rejection: the message of the thrown
  \<^verbatim>\<open>Error\<close>, or "Unknown error" for any other value. The reason is empty exactly when
  the thrown \<^verbatim>\<open>Error\<close> has an empty message.
\<close>

theorem failure_is_isolated:
  assumes "valid_request e req v atts" and "verify e (transport_options_of v) = None"
      and "\<forall>k. k \<noteq> i \<longrightarrow> f k = sendMail e k"
  shows "calls (send_emails e req)
           = createTransport (transport_options_of v) # verify_call (transport_options_of v)
               # map (\<lambda>r. sendMail_call (transport_options_of v) (mailOptions_of v atts r))
                   (recipients v) \<and>
         calls (send_emails (e\<lparr>sendMail := f\<rparr>) req) = calls (send_emails e req) \<and>
         length (terminal_events (written (res (send_emails e req)))) = length (recipients v) \<and>
         (\<forall>j<length (recipients v). j \<noteq> i \<longrightarrow>
            terminal_events (written (res (send_emails (e\<lparr>sendMail := f\<rparr>) req))) ! j
              = terminal_events (written (res (send_emails e req))) ! j) \<and>
         (\<forall>j<length (recipients v).
            sendMail e j (mailOptions_of v atts (recipients v ! j)) = None \<longrightarrow>
            terminal_events (written (res (send_emails e req))) ! j
              = \<lparr>email = recipients v ! j, status = sent, error = None\<rparr>) \<and>
         (\<forall>j<length (recipients v). \<forall>err.
            sendMail e j (mailOptions_of v atts (recipients v ! j)) = Some err \<longrightarrow>
            terminal_events (written (res (send_emails e req))) ! j
              = \<lparr>email = recipients v ! j, status = failed,
                 error = Some (error_message err ''Unknown error'')\<rparr> \<and>
            (error_message err ''Unknown error'' = [] \<longleftrightarrow> is_Error err \<and> error_message err [] = []))"
proof -
  let ?e' = "e\<lparr>sendMail := f\<rparr>"
  have v': "valid_request ?e' req v atts"
    using assms(1) by (simp add: valid_request_sendMail_update)
  have ok': "verify ?e' (transport_options_of v) = None"
    using assms(2) by simp
  have t: "terminal_events (written (res (send_emails e req))) = outcomes e v atts 0 (recipients v)"
    by (rule send_emails_terminal[OF assms(1,2)])
  have t': "terminal_events (written (res (send_emails ?e' req))) = outcomes ?e' v atts 0 (recipients v)"
    by (rule send_emails_terminal[OF v' ok'])
  have c1: "calls (send_emails e req)
           = createTransport (transport_options_of v) # verify_call (transport_options_of v)
               # map (\<lambda>r. sendMail_call (transport_options_of v) (mailOptions_of v atts r))
                   (recipients v)"
    by (rule send_emails_calls[OF assms(1,2)])
  have c2: "calls (send_emails ?e' req) = calls (send_emails e req)"
    by (simp add: send_emails_calls[OF assms(1,2)] send_emails_calls[OF v' ok'])
  have c3: "length (terminal_events (written (res (send_emails e req)))) = length (recipients v)"
    by (simp add: t outcomes_length)
  have c4: "\<forall>j<length (recipients v). j \<noteq> i \<longrightarrow>
            terminal_events (written (res (send_emails ?e' req))) ! j
              = terminal_events (written (res (send_emails e req))) ! j"
    using assms(3) by (simp add: t t' outcomes_nth outcome_status_def)
  have c5: "\<forall>j<length (recipients v).
            sendMail e j (mailOptions_of v atts (recipients v ! j)) = None \<longrightarrow>
            terminal_events (written (res (send_emails e req))) ! j
              = \<lparr>email = recipients v ! j, status = sent, error = None\<rparr>"
    by (simp add: t outcomes_nth outcome_status_def)
  have c6: "\<forall>j<length (recipients v). \<forall>err.
            sendMail e j (mailOptions_of v atts (recipients v ! j)) = Some err \<longrightarrow>
            terminal_events (written (res (send_emails e req))) ! j
              = \<lparr>email = recipients v ! j, status = failed,
                 error = Some (error_message err ''Unknown error'')\<rparr> \<and>
            (error_message err ''Unknown error'' = [] \<longleftrightarrow> is_Error err \<and> error_message err [] = [])"
  proof (intro allI impI)
    fix j err
    assume j: "j < length (recipients v)"
      and s: "sendMail e j (mailOptions_of v atts (recipients v ! j)) = Some err"
    have "error_message err ''Unknown error'' = [] \<longleftrightarrow> is_Error err \<and> error_message err [] = []"
      by (cases err) simp_all
    with j s show "terminal_events (written (res (send_emails e req))) ! j
              = \<lparr>email = recipients v ! j, status = failed,
                 error = Some (error_message err ''Unknown error'')\<rparr> \<and>
            (error_message err ''Unknown error'' = [] \<longleftrightarrow> is_Error err \<and> error_message err [] = [])"
      by (simp add: t outcomes_nth outcome_status_def)
  qed
  from c1 c2 c3 c4 c5 c6 show ?thesis by blast
qed


text \<open>A mail service whose rejection is an \<^verbatim>\<open>Error\<close> with an empty message.\<close>

definition silent_env :: env where
  "silent_env =
     \<lparr>zod_email = (\<lambda>s. CHR ''@'' \<in> set s),
      verify = (\<lambda>t. None),
      sendMail = (\<lambda>k m. if m_to m = ''a@x.com'' then Some (JsError []) else None)\<rparr>"

lemma silent_valid: "valid_request silent_env example_request example_validated []"
  by (simp add: valid_request_def silent_env_def example_request_def example_body_def
        example_validated_def parse_fields_def sendEmailRequestSchema_def z_default_def
        z_optional_def default_host_def default_fromEmail_def)

lemma silent_verified: "verify silent_env (transport_options_of example_validated) = None"
  by (simp add: silent_env_def)

text \<open>
  With that service the first recipient ends "failed" and the reason written to the
  stream is the empty string.
\<close>

theorem failure_reason_counterexample:
  "valid_request silent_env example_request example_validated [] \<and>
   verify silent_env (transport_options_of example_validated) = None \<and>
   sendMail silent_env 0 (mailOptions_of example_validated [] ''a@x.com'') = Some (JsError []) \<and>
   terminal_events (written (res (send_emails silent_env example_request)))
     = [\<lparr>email = ''a@x.com'', status = failed, error = Some []\<rparr>,
        \<lparr>email = ''b@x.com'', status = sent, error = None\<rparr>]"
proof -
  have "recipients example_validated = [''a@x.com'', ''b@x.com'']"
    by (simp add: example_validated_def)
  then have "outcomes silent_env example_validated [] 0 (recipients example_validated)
     = [\<lparr>email = ''a@x.com'', status = failed, error = Some []\<rparr>,
        \<lparr>email = ''b@x.com'', status = sent, error = None\<rparr>]"
    by (simp add: outcome_status_def silent_env_def mailOptions_of_def)
  moreover have "sendMail silent_env 0 (mailOptions_of example_validated [] ''a@x.com'') = Some (JsError [])"
    by (simp add: silent_env_def mailOptions_of_def)
  ultimately show ?thesis
    using silent_valid silent_verified send_emails_terminal[OF silent_valid silent_verified]
    by simp
qed

theorem failure_is_isolated_witness:
  "valid_request example_env example_request example_validated [] \<and>
   verify example_env (transport_options_of example_validated) = None \<and>
   calls (send_emails (example_env\<lparr>sendMail := (sendMail example_env)(0 := (\<lambda>m. None))\<rparr>) example_request)
     = calls (send_emails example_env example_request) \<and>
   terminal_events (written (res (send_emails example_env example_request))) ! 0
     = \<lparr>email = ''a@x.com'', status = failed, error = Some ''Mailbox unavailable''\<rparr> \<and>
   terminal_events (written (res (send_emails example_env example_request))) ! 1
     = \<lparr>email = ''b@x.com'', status = sent, error = None\<rparr> \<and>
   terminal_events (written (res (send_emails
       (example_env\<lparr>sendMail := (sendMail example_env)(0 := (\<lambda>m. None))\<rparr>) example_request))) ! 1
     = \<lparr>email = ''b@x.com'', status = sent, error = None\<rparr>"
proof -
  have h: "\<forall>k. k \<noteq> 0 \<longrightarrow> ((sendMail example_env)(0 := (\<lambda>m. None))) k = sendMail example_env k"
    by simp
  have r: "recipients example_validated = [''a@x.com'', ''b@x.com'']"
    by (simp add: example_validated_def)
  have a: "sendMail example_env 0 (mailOptions_of example_validated [] (recipients example_validated ! 0))
             = Some (JsError ''Mailbox unavailable'')"
    by (simp add: r) (simp add: example_env_def mailOptions_of_def)
  have b: "sendMail example_env 1 (mailOptions_of example_validated [] (recipients example_validated ! 1))
             = None"
    by (simp add: r) (simp add: example_env_def mailOptions_of_def)
  note th = failure_is_isolated[OF example_valid example_verified h]
  from th have c: "calls (send_emails (example_env\<lparr>sendMail := (sendMail example_env)(0 := (\<lambda>m. None))\<rparr>) example_request)
     = calls (send_emails example_env example_request)" by blast
  from th have "\<forall>j<length (recipients example_validated). j \<noteq> 0 \<longrightarrow>
            terminal_events (written (res (send_emails (example_env\<lparr>sendMail := (sendMail example_env)(0 := (\<lambda>m. None))\<rparr>) example_request))) ! j
              = terminal_events (written (res (send_emails example_env example_request))) ! j"
    by blast
  then have d: "terminal_events (written (res (send_emails (example_env\<lparr>sendMail := (sendMail example_env)(0 := (\<lambda>m. None))\<rparr>) example_request))) ! 1
              = terminal_events (written (res (send_emails example_env example_request))) ! 1"
    by (simp add: r)
  from th have "\<forall>j<length (recipients example_validated).
            sendMail example_env j (mailOptions_of example_validated [] (recipients example_validated ! j)) = None \<longrightarrow>
            terminal_events (written (res (send_emails example_env example_request))) ! j
              = \<lparr>email = recipients example_validated ! j, status = sent, error = None\<rparr>"
    by blast
  with b have f: "terminal_events (written (res (send_emails example_env example_request))) ! 1
              = \<lparr>email = ''b@x.com'', status = sent, error = None\<rparr>"
    by (simp add: r)
  from th have "\<forall>j<length (recipients example_validated). \<forall>err.
            sendMail example_env j (mailOptions_of example_validated [] (recipients example_validated ! j)) = Some err \<longrightarrow>
            terminal_events (written (res (send_emails example_env example_request))) ! j
              = \<lparr>email = recipients example_validated ! j, status = failed,
                 error = Some (error_message err ''Unknown error'')\<rparr>"
    by blast
  with a have g: "terminal_events (written (res (send_emails example_env example_request))) ! 0
              = \<lparr>email = ''a@x.com'', status = failed, error = Some ''Mailbox unavailable''\<rparr>"
    by (simp add: r)
  from example_valid example_verified c d f g show ?thesis by simp
qed



section \<open>Requests that never reach the dispatch loop\<close>

subsection \<open>Failed verification\<close>

lemma send_emails_unverified:
  assumes "valid_request e req v atts" and "verify e (transport_options_of v) = Some err"
  shows "send_emails e req =
           res_json 401
             \<lparr>r_message = ''SMTP authentication failed. Please check your credentials.'',
              r_errors = None\<rparr>
             (call (verify_call (transport_options_of v))
                (call (createTransport (transport_options_of v)) initial_state))"
  using assms
  by (auto simp: valid_request_def send_emails_def send_emails_try_def Let_def
           split: option.splits)

text \<open>
  C5. When a request passes validation and the verification of its credentials fails,
  the handler answers with the status 401 and a JSON body, and that is all: nothing is
  written to an event stream, no stream header is set, no "sending" unit exists, and
  the mail library is asked to create the transporter and to verify it but never to
  send a message.
\<close>

theorem verification_failure_aborts:
  assumes "valid_request e req v atts" and "verify e (transport_options_of v) = Some err"
  shows "written (res (send_emails e req)) = [] \<and>
         sending_events (written (res (send_emails e req))) = [] \<and>
         headers (res (send_emails e req)) = [] \<and>
         \<not> sseStarted (send_emails e req) \<and>
         filter is_sendMail (calls (send_emails e req)) = [] \<and>
         calls (send_emails e req)
           = [createTransport (transport_options_of v), verify_call (transport_options_of v)] \<and>
         statusCode (res (send_emails e req)) = 401 \<and>
         json_body (res (send_emails e req))
           = Some \<lparr>r_message = ''SMTP authentication failed. Please check your credentials.'',
                   r_errors = None\<rparr> \<and>
         ended (res (send_emails e req))"
  by (simp add: send_emails_unverified[OF assms] res_json_def call_def initial_state_def
        sending_events_def status_units_def)

text \<open>A mail service that refuses the credentials.\<close>

definition locked_env :: env where
  "locked_env =
     \<lparr>zod_email = (\<lambda>s. CHR ''@'' \<in> set s),
      verify = (\<lambda>t. Some (JsError ''Invalid login'')),
      sendMail = (\<lambda>k m. None)\<rparr>"

lemma locked_valid: "valid_request locked_env example_request example_validated []"
  by (simp add: valid_request_def locked_env_def example_request_def example_body_def
        example_validated_def parse_fields_def sendEmailRequestSchema_def z_default_def
        z_optional_def default_host_def default_fromEmail_def)

theorem verification_failure_aborts_witness:
  "valid_request locked_env example_request example_validated [] \<and>
   verify locked_env (transport_options_of example_validated) = Some (JsError ''Invalid login'') \<and>
   written (res (send_emails locked_env example_request)) = [] \<and>
   filter is_sendMail (calls (send_emails locked_env example_request)) = [] \<and>
   statusCode (res (send_emails locked_env example_request)) = 401"
proof -
  have h: "verify locked_env (transport_options_of example_validated) = Some (JsError ''Invalid login'')"
    by (simp add: locked_env_def)
  from verification_failure_aborts[OF locked_valid h] locked_valid h show ?thesis by simp
qed

subsection \<open>Validation\<close>

lemma collect_attachments_Inr:
  "\<forall>file\<in>set fs. mimetype file \<in> set allowedFileTypes \<Longrightarrow>
   collect_attachments fs acc
     = Inr (acc @ map (\<lambda>file. \<lparr>filename = originalname file, content = buffer file\<rparr>) fs)"
  by (induction fs arbitrary: acc) auto

lemma collect_attachments_Inl:
  "\<exists>file\<in>set fs. mimetype file \<notin> set allowedFileTypes \<Longrightarrow>
   \<exists>file. collect_attachments fs acc = Inl file \<and> file \<in> set fs \<and> mimetype file \<notin> set allowedFileTypes"
  by (induction fs arbitrary: acc) auto

definition uploaded :: "request \<Rightarrow> multer_file list" where
  "uploaded req = (case files req of None \<Rightarrow> [] | Some fs \<Rightarrow> fs)"

text \<open>The three ways a request with a body fails validation.\<close>

definition fails_validation :: "env \<Rightarrow> request \<Rightarrow> bool" where
  "fails_validation e req =
     (case body req of
        None \<Rightarrow> False
      | Some b \<Rightarrow>
         (case parse_fields b of
            None \<Rightarrow> True
          | Some d \<Rightarrow>
             (case sendEmailRequestSchema (zod_email e) d of
                Inl errors \<Rightarrow> True
              | Inr v \<Rightarrow> list_ex (\<lambda>file. mimetype file \<notin> set allowedFileTypes) (uploaded req))))"

lemma schema_no_recipients:
  "d_recipients d = Some (JArr []) \<Longrightarrow> \<exists>is. sendEmailRequestSchema em d = Inl is"
  by (simp add: sendEmailRequestSchema_def Let_def split: sum.splits)

lemma schema_missing_recipients:
  "d_recipients d = None \<Longrightarrow> \<exists>is. sendEmailRequestSchema em d = Inl is"
  by (simp add: sendEmailRequestSchema_def Let_def split: sum.splits)

lemma schema_missing_subject:
  "d_subject d = None \<or> d_subject d = Some (JStr []) \<Longrightarrow> \<exists>is. sendEmailRequestSchema em d = Inl is"
  by (auto simp add: sendEmailRequestSchema_def Let_def split: sum.splits)

lemma schema_missing_htmlBody:
  "d_htmlBody d = None \<or> d_htmlBody d = Some (JStr []) \<Longrightarrow> \<exists>is. sendEmailRequestSchema em d = Inl is"
  by (auto simp add: sendEmailRequestSchema_def Let_def split: sum.splits)

lemma schema_missing_smtpConfig:
  "d_smtpConfig d = None \<Longrightarrow> \<exists>is. sendEmailRequestSchema em d = Inl is"
  by (auto simp add: sendEmailRequestSchema_def Let_def split: sum.splits)


lemma z_elements_email_Inr:
  "z_elements (z_string_email em) p i xs = Inr ys \<Longrightarrow> xs = map JStr ys \<and> (\<forall>y\<in>set ys. em y)"
proof (induction xs arbitrary: i ys)
  case Nil
  then show ?case by simp
next
  case (Cons x xs)
  from Cons.prems obtain y ys' where
    y: "z_string_email em (p @ [Idx i]) (Some x) = Inr y" and
    ys': "z_elements (z_string_email em) p (Suc i) xs = Inr ys'" and
    ys: "ys = y # ys'"
    by (auto split: sum.splits)
  from y have "x = JStr y \<and> em y"
    by (cases x) (auto split: if_splits)
  with Cons.IH[OF ys'] ys show ?case by simp
qed

lemma z_elements_email_map:
  "\<forall>y\<in>set ys. em y \<Longrightarrow> z_elements (z_string_email em) p i (map JStr ys) = Inr ys"
  by (induction ys arbitrary: i) auto

lemma schema_bad_recipient:
  assumes "d_recipients d = Some (JArr xs)"
      and "\<exists>x\<in>set xs. \<forall>s. x = JStr s \<longrightarrow> \<not> em s"
  shows "\<exists>is. sendEmailRequestSchema em d = Inl is"
proof (cases "sendEmailRequestSchema em d")
  case (Inl a)
  then show ?thesis by simp
next
  case (Inr v)
  then have "z_email_array_min1 ''At least one recipient is required'' em [Key ''recipients'']
                (d_recipients d) = Inr (recipients v)"
    by (auto simp: sendEmailRequestSchema_def Let_def split: sum.splits)
  with assms(1) have "z_elements (z_string_email em) [Key ''recipients''] 0 xs = Inr (recipients v)"
    by (simp split: if_splits)
  from z_elements_email_Inr[OF this] assms(2) show ?thesis by auto
qed

lemma schema_missing_credentials:
  assumes "d_smtpConfig d = Some (JObj kvs)"
      and "map_of kvs ''username'' = None \<or> map_of kvs ''username'' = Some (JStr [])
           \<or> map_of kvs ''password'' = None \<or> map_of kvs ''password'' = Some (JStr [])"
  shows "\<exists>is. sendEmailRequestSchema em d = Inl is"
proof -
  from assms have "\<exists>is. smtpConfigSchema em [Key ''smtpConfig''] (d_smtpConfig d) = Inl is"
    by (auto simp: Let_def split: sum.splits)
  then show ?thesis
    by (auto simp: sendEmailRequestSchema_def Let_def split: sum.splits)
qed

lemma send_emails_fails_validation:
  assumes "fails_validation e req"
  shows "\<exists>reply. send_emails e req = res_json 400 reply initial_state"
proof -
  from assms obtain b where b: "body req = Some b"
    by (auto simp: fails_validation_def split: option.splits)
  show ?thesis
  proof (cases "parse_fields b")
    case None
    with b show ?thesis
      by (simp add: send_emails_def send_emails_try_def) blast
  next
    case (Some d)
    show ?thesis
    proof (cases "sendEmailRequestSchema (zod_email e) d")
      case (Inl errors)
      with b Some show ?thesis
        by (simp add: send_emails_def send_emails_try_def) blast
    next
      case (Inr v)
      with assms b Some have "\<exists>file\<in>set (uploaded req). mimetype file \<notin> set allowedFileTypes"
        by (simp add: fails_validation_def list_ex_iff)
      from collect_attachments_Inl[OF this, of "[]"] obtain bad where
        "collect_attachments (uploaded req) [] = Inl bad" by blast
      with b Some Inr show ?thesis
        by (simp add: send_emails_def send_emails_try_def uploaded_def) blast
    qed
  qed
qed

text \<open>
  C6. A request that fails validation (its JSON fields do not parse, the schema raises
  an issue, or an uploaded file has a type outside the allowed list) is answered with
  the status 400 and a JSON body and nothing else happens: the mail library is never
  called, so no transporter exists, nothing is written to a stream and no "sending"
  unit is emitted. Having no recipient, an invalid recipient, a missing or empty
  subject, body, user name or password, and one file of a disallowed type among
  allowed ones are all validation failures.
\<close>

theorem invalid_request_rejected:
  "(fails_validation e req \<longrightarrow>
      calls (send_emails e req) = [] \<and>
      written (res (send_emails e req)) = [] \<and>
      sending_events (written (res (send_emails e req))) = [] \<and>
      headers (res (send_emails e req)) = [] \<and>
      \<not> sseStarted (send_emails e req) \<and>
      statusCode (res (send_emails e req)) = 400 \<and>
      json_body (res (send_emails e req)) \<noteq> None \<and>
      ended (res (send_emails e req))) \<and>
   (\<forall>b. body req = Some b \<and> parse_fields b = None \<longrightarrow> fails_validation e req) \<and>
   (\<forall>b d. body req = Some b \<and> parse_fields b = Some d \<and>
      (d_recipients d = None \<or> d_recipients d = Some (JArr []) \<or>
       (\<exists>xs. d_recipients d = Some (JArr xs) \<and> (\<exists>x\<in>set xs. \<forall>s. x = JStr s \<longrightarrow> \<not> zod_email e s)) \<or>
       d_subject d = None \<or> d_subject d = Some (JStr []) \<or>
       d_htmlBody d = None \<or> d_htmlBody d = Some (JStr []) \<or>
       (\<exists>kvs. d_smtpConfig d = Some (JObj kvs) \<and>
          (map_of kvs ''username'' = None \<or> map_of kvs ''username'' = Some (JStr []) \<or>
           map_of kvs ''password'' = None \<or> map_of kvs ''password'' = Some (JStr []))))
      \<longrightarrow> fails_validation e req) \<and>
   (\<forall>b. body req = Some b \<and> (\<exists>file\<in>set (uploaded req). mimetype file \<notin> set allowedFileTypes)
      \<longrightarrow> fails_validation e req)"
proof (intro conjI allI impI)
  assume f: "fails_validation e req"
  from send_emails_fails_validation[OF f] obtain reply where
    r: "send_emails e req = res_json 400 reply initial_state" by blast
  show "calls (send_emails e req) = []" by (simp add: r res_json_def initial_state_def)
  show "written (res (send_emails e req)) = []" by (simp add: r res_json_def initial_state_def)
  show "sending_events (written (res (send_emails e req))) = []"
    by (simp add: r res_json_def initial_state_def sending_events_def status_units_def)
  show "headers (res (send_emails e req)) = []" by (simp add: r res_json_def initial_state_def)
  show "\<not> sseStarted (send_emails e req)" by (simp add: r res_json_def initial_state_def)
  show "statusCode (res (send_emails e req)) = 400" by (simp add: r res_json_def initial_state_def)
  show "json_body (res (send_emails e req)) \<noteq> None" by (simp add: r res_json_def initial_state_def)
  show "ended (res (send_emails e req))" by (simp add: r res_json_def initial_state_def)
next
  fix b
  assume "body req = Some b \<and> parse_fields b = None"
  then show "fails_validation e req" by (simp add: fails_validation_def)
next
  fix b d
  assume a: "body req = Some b \<and> parse_fields b = Some d \<and>
      (d_recipients d = None \<or> d_recipients d = Some (JArr []) \<or>
       (\<exists>xs. d_recipients d = Some (JArr xs) \<and> (\<exists>x\<in>set xs. \<forall>s. x = JStr s \<longrightarrow> \<not> zod_email e s)) \<or>
       d_subject d = None \<or> d_subject d = Some (JStr []) \<or>
       d_htmlBody d = None \<or> d_htmlBody d = Some (JStr []) \<or>
       (\<exists>kvs. d_smtpConfig d = Some (JObj kvs) \<and>
          (map_of kvs ''username'' = None \<or> map_of kvs ''username'' = Some (JStr []) \<or>
           map_of kvs ''password'' = None \<or> map_of kvs ''password'' = Some (JStr []))))"
  then have "\<exists>is. sendEmailRequestSchema (zod_email e) d = Inl is"
    using schema_missing_recipients[of d "zod_email e"] schema_no_recipients[of d "zod_email e"]
      schema_bad_recipient[of d _ "zod_email e"] schema_missing_subject[of d "zod_email e"]
      schema_missing_htmlBody[of d "zod_email e"] schema_missing_credentials[of d _ "zod_email e"]
    by blast
  with a show "fails_validation e req" by (auto simp: fails_validation_def)
next
  fix b
  assume a: "body req = Some b \<and> (\<exists>file\<in>set (uploaded req). mimetype file \<notin> set allowedFileTypes)"
  then show "fails_validation e req"
    by (auto simp: fails_validation_def list_ex_iff split: option.splits sum.splits)
qed


text \<open>
  Two rejected requests: a PDF together with a ZIP archive, and an empty recipient list.
\<close>

definition zip_request :: request where
  "zip_request =
     \<lparr>body = Some example_body,
      files = Some [\<lparr>mimetype = ''application/pdf'', originalname = ''terms.pdf'', buffer = ''%PDF''\<rparr>,
                    \<lparr>mimetype = ''application/zip'', originalname = ''all.zip'', buffer = ''PK''\<rparr>]\<rparr>"

definition no_recipient_request :: request where
  "no_recipient_request =
     \<lparr>body = Some (example_body\<lparr>recipientsStr := Some (Text (JArr []))\<rparr>), files = Some []\<rparr>"

theorem invalid_request_rejected_witness:
  "body zip_request = Some example_body \<and>
   (\<exists>file\<in>set (uploaded zip_request). mimetype file \<notin> set allowedFileTypes) \<and>
   fails_validation example_env zip_request \<and>
   calls (send_emails example_env zip_request) = [] \<and>
   written (res (send_emails example_env zip_request)) = [] \<and>
   statusCode (res (send_emails example_env zip_request)) = 400 \<and>
   body no_recipient_request = Some (example_body\<lparr>recipientsStr := Some (Text (JArr []))\<rparr>) \<and>
   map_option d_recipients (parse_fields (example_body\<lparr>recipientsStr := Some (Text (JArr []))\<rparr>))
     = Some (Some (JArr [])) \<and>
   fails_validation example_env no_recipient_request \<and>
   calls (send_emails example_env no_recipient_request) = [] \<and>
   written (res (send_emails example_env no_recipient_request)) = [] \<and>
   statusCode (res (send_emails example_env no_recipient_request)) = 400"
proof -
  have z1: "body zip_request = Some example_body"
    by (simp add: zip_request_def)
  have z2: "\<exists>file\<in>set (uploaded zip_request). mimetype file \<notin> set allowedFileTypes"
    by (simp add: zip_request_def uploaded_def allowedFileTypes_def)
  have z3: "fails_validation example_env zip_request"
    using invalid_request_rejected[of example_env zip_request] z1 z2 by blast
  have n1: "body no_recipient_request = Some (example_body\<lparr>recipientsStr := Some (Text (JArr []))\<rparr>)"
    by (simp add: no_recipient_request_def)
  obtain d where n2: "parse_fields (example_body\<lparr>recipientsStr := Some (Text (JArr []))\<rparr>) = Some d"
    and n3: "d_recipients d = Some (JArr [])"
    by (simp add: parse_fields_def example_body_def)
  have n4: "fails_validation example_env no_recipient_request"
    using invalid_request_rejected[of example_env no_recipient_request] n1 n2 n3 by blast
  from z1 z2 z3 n1 n2 n3 n4 invalid_request_rejected[of example_env zip_request]
    invalid_request_rejected[of example_env no_recipient_request]
  show ?thesis by simp
qed



section \<open>The shape of every run\<close>

subsection \<open>The transporter\<close>

lemma not_valid_rejected:
  assumes "\<not> (\<exists>v atts. valid_request e req v atts)"
  shows "\<exists>c reply. send_emails e req = res_json c reply initial_state"
proof (cases "body req")
  case None
  then show ?thesis
    by (simp add: send_emails_def send_emails_try_def initial_state_def) blast
next
  case (Some b)
  have "fails_validation e req"
  proof (cases "parse_fields b")
    case None
    with Some show ?thesis by (simp add: fails_validation_def)
  next
    case d: (Some d)
    show ?thesis
    proof (cases "sendEmailRequestSchema (zod_email e) d")
      case (Inl errors)
      with Some d show ?thesis by (simp add: fails_validation_def)
    next
      case (Inr v)
      have "\<exists>bad\<in>set (uploaded req). mimetype bad \<notin> set allowedFileTypes"
      proof (rule ccontr)
        assume "\<not> ?thesis"
        then have "\<forall>f\<in>set (uploaded req). mimetype f \<in> set allowedFileTypes" by blast
        from collect_attachments_Inr[OF this, of "[]"] Some d Inr
        have "\<exists>atts. valid_request e req v atts"
          by (simp add: valid_request_def uploaded_def)
        with assms show False by blast
      qed
      with Some d Inr show ?thesis by (simp add: fails_validation_def list_ex_iff)
    qed
  qed
  from send_emails_fails_validation[OF this] show ?thesis by blast
qed

lemma send_emails_cases:
  obtains (stream) v atts where "valid_request e req v atts" "verify e (transport_options_of v) = None"
  | (unverified) v atts err where "valid_request e req v atts"
        "verify e (transport_options_of v) = Some err"
  | (rejected) c reply where "send_emails e req = res_json c reply initial_state"
proof (cases "\<exists>v atts. valid_request e req v atts")
  case True
  then obtain v atts where v: "valid_request e req v atts" by blast
  show ?thesis
  proof (cases "verify e (transport_options_of v)")
    case None
    with v show ?thesis by (rule stream)
  next
    case (Some err)
    with v show ?thesis by (rule unverified)
  qed
next
  case False
  from not_valid_rejected[OF this] show ?thesis using rejected by blast
qed

fun is_createTransport :: "transport_call \<Rightarrow> bool" where
  "is_createTransport (createTransport t) = True"
| "is_createTransport c = False"

fun is_verify :: "transport_call \<Rightarrow> bool" where
  "is_verify (verify_call t) = True"
| "is_verify c = False"

fun is_close :: "transport_call \<Rightarrow> bool" where
  "is_close (close_call t) = True"
| "is_close c = False"

lemma filter_sendMail_calls [simp]:
  "filter is_createTransport (map (\<lambda>r. sendMail_call t (f r)) rs) = []"
  "filter is_verify (map (\<lambda>r. sendMail_call t (f r)) rs) = []"
  "filter is_close (map (\<lambda>r. sendMail_call t (f r)) rs) = []"
  by (induction rs) simp_all

text \<open>
  C7. One transporter per batch, never released by the handler. For a request that
  passes validation the calls to the mail library are: the creation of one transporter,
  one verification of it and, when the verification succeeds, one \<^verbatim>\<open>sendMail\<close> per
  recipient, in order, each on that same transporter. For any other request the library
  is not called at all. In every run at most one transporter is created, it is verified
  at most once, and \<^verbatim>\<open>close\<close> is never called.
\<close>

theorem one_transporter_never_closed:
  "(\<forall>v atts. valid_request e req v atts \<longrightarrow>
      calls (send_emails e req)
        = createTransport (transport_options_of v) # verify_call (transport_options_of v)
            # (case verify e (transport_options_of v) of
                 None \<Rightarrow> map (\<lambda>r. sendMail_call (transport_options_of v) (mailOptions_of v atts r))
                           (recipients v)
               | Some err \<Rightarrow> [])) \<and>
   (\<not> (\<exists>v atts. valid_request e req v atts) \<longrightarrow> calls (send_emails e req) = []) \<and>
   length (filter is_createTransport (calls (send_emails e req))) \<le> 1 \<and>
   length (filter is_verify (calls (send_emails e req))) \<le> 1 \<and>
   filter is_close (calls (send_emails e req)) = []"
proof (intro conjI allI impI)
  fix v atts
  assume v: "valid_request e req v atts"
  show "calls (send_emails e req)
        = createTransport (transport_options_of v) # verify_call (transport_options_of v)
            # (case verify e (transport_options_of v) of
                 None \<Rightarrow> map (\<lambda>r. sendMail_call (transport_options_of v) (mailOptions_of v atts r))
                           (recipients v)
               | Some err \<Rightarrow> [])"
  proof (cases "verify e (transport_options_of v)")
    case None
    with send_emails_calls[OF v None] show ?thesis by simp
  next
    case (Some err)
    with send_emails_unverified[OF v Some] show ?thesis
      by (simp add: res_json_def call_def initial_state_def)
  qed
next
  assume "\<not> (\<exists>v atts. valid_request e req v atts)"
  from not_valid_rejected[OF this] show "calls (send_emails e req) = []"
    by (auto simp: res_json_def initial_state_def)
next
  show "length (filter is_createTransport (calls (send_emails e req))) \<le> 1"
  proof (rule send_emails_cases[where e=e and req=req])
    fix v atts
    assume "valid_request e req v atts" "verify e (transport_options_of v) = None"
    then show ?thesis by (simp add: send_emails_calls)
  next
    fix v atts err
    assume "valid_request e req v atts" "verify e (transport_options_of v) = Some err"
    then show ?thesis
      by (simp add: send_emails_unverified res_json_def call_def initial_state_def)
  next
    fix c reply
    assume "send_emails e req = res_json c reply initial_state"
    then show ?thesis by (simp add: res_json_def initial_state_def)
  qed
next
  show "length (filter is_verify (calls (send_emails e req))) \<le> 1"
  proof (rule send_emails_cases[where e=e and req=req])
    fix v atts
    assume "valid_request e req v atts" "verify e (transport_options_of v) = None"
    then show ?thesis by (simp add: send_emails_calls)
  next
    fix v atts err
    assume "valid_request e req v atts" "verify e (transport_options_of v) = Some err"
    then show ?thesis
      by (simp add: send_emails_unverified res_json_def call_def initial_state_def)
  next
    fix c reply
    assume "send_emails e req = res_json c reply initial_state"
    then show ?thesis by (simp add: res_json_def initial_state_def)
  qed
next
  show "filter is_close (calls (send_emails e req)) = []"
  proof (rule send_emails_cases[where e=e and req=req])
    fix v atts
    assume "valid_request e req v atts" "verify e (transport_options_of v) = None"
    then show ?thesis by (simp add: send_emails_calls)
  next
    fix v atts err
    assume "valid_request e req v atts" "verify e (transport_options_of v) = Some err"
    then show ?thesis
      by (simp add: send_emails_unverified res_json_def call_def initial_state_def)
  next
    fix c reply
    assume "send_emails e req = res_json c reply initial_state"
    then show ?thesis by (simp add: res_json_def initial_state_def)
  qed
qed


lemma stream_batch_ended: "ended (res (stream_batch e t v atts s))"
  by (simp add: stream_batch_def Let_def res_end_def)

lemma stream_batch_sseStarted: "sseStarted (stream_batch e t v atts s)"
  by (simp add: stream_batch_def Let_def res_end_def res_write_def send_loop_eq)

lemma example_calls:
  "calls (send_emails example_env example_request)
     = [createTransport (transport_options_of example_validated),
        verify_call (transport_options_of example_validated),
        sendMail_call (transport_options_of example_validated)
          (mailOptions_of example_validated [] ''a@x.com''),
        sendMail_call (transport_options_of example_validated)
          (mailOptions_of example_validated [] ''b@x.com'')]"
proof -
  have "recipients example_validated = [''a@x.com'', ''b@x.com'']"
    by (simp add: example_validated_def)
  then show ?thesis
    by (simp add: send_emails_calls[OF example_valid example_verified])
qed

text \<open>
  A batch that has run to its end (the response is finished, four calls were made) and
  whose transporter was not closed.
\<close>

theorem session_not_released_counterexample:
  "ended (res (send_emails example_env example_request)) \<and>
   length (calls (send_emails example_env example_request)) = 4 \<and>
   filter is_close (calls (send_emails example_env example_request)) = []"
  by (simp add: example_calls)
     (simp add: send_emails_valid[OF example_valid example_verified] stream_batch_ended)

theorem one_transporter_never_closed_witness:
  "valid_request example_env example_request example_validated [] \<and>
   calls (send_emails example_env example_request)
     = [createTransport (transport_options_of example_validated),
        verify_call (transport_options_of example_validated),
        sendMail_call (transport_options_of example_validated)
          (mailOptions_of example_validated [] ''a@x.com''),
        sendMail_call (transport_options_of example_validated)
          (mailOptions_of example_validated [] ''b@x.com'')] \<and>
   \<not> (\<exists>v atts. valid_request example_env no_recipient_request v atts) \<and>
   calls (send_emails example_env no_recipient_request) = []"
proof -
  have r: "recipients example_validated = [''a@x.com'', ''b@x.com'']"
    by (simp add: example_validated_def)
  have n: "\<not> (\<exists>v atts. valid_request example_env no_recipient_request v atts)"
    by (simp add: valid_request_def no_recipient_request_def example_body_def parse_fields_def
          sendEmailRequestSchema_def Let_def split: sum.splits)
  from one_transporter_never_closed[of example_env example_request] example_valid
  have "calls (send_emails example_env example_request)
        = createTransport (transport_options_of example_validated)
            # verify_call (transport_options_of example_validated)
            # (case verify example_env (transport_options_of example_validated) of
                 None \<Rightarrow> map (\<lambda>r. sendMail_call (transport_options_of example_validated)
                                      (mailOptions_of example_validated [] r))
                           (recipients example_validated)
               | Some err \<Rightarrow> [])"
    by blast
  then have c: "calls (send_emails example_env example_request)
     = [createTransport (transport_options_of example_validated),
        verify_call (transport_options_of example_validated),
        sendMail_call (transport_options_of example_validated)
          (mailOptions_of example_validated [] ''a@x.com''),
        sendMail_call (transport_options_of example_validated)
          (mailOptions_of example_validated [] ''b@x.com'')]"
    by (simp add: example_verified r)
  from one_transporter_never_closed[of example_env no_recipient_request] n
  have "calls (send_emails example_env no_recipient_request) = []" by blast
  with example_valid c n show ?thesis by blast
qed

subsection \<open>The end of the stream\<close>

fun is_terminal_unit :: "sse_unit \<Rightarrow> bool" where
  "is_terminal_unit (StatusUnit st) = False"
| "is_terminal_unit (CompleteUnit r) = True"
| "is_terminal_unit (ErrorUnit m) = True"

definition stream_opened :: "handler_state \<Rightarrow> bool" where
  "stream_opened s =
     (sseStarted s \<or> written (res s) \<noteq> []
      \<or> (''Content-Type'', ''text/event-stream'') \<in> set (headers (res s)))"

lemma progress_units_not_terminal: "filter is_terminal_unit (progress_units sts) = []"
  by (induction sts) (simp_all add: progress_units_def)

lemma rejected_not_opened: "\<not> stream_opened (res_json c reply initial_state)"
  by (simp add: stream_opened_def res_json_def initial_state_def)

lemma unverified_not_opened:
  "\<not> stream_opened (res_json c reply (call a (call b initial_state)))"
  by (simp add: stream_opened_def res_json_def call_def initial_state_def)

text \<open>
  C8. Every stream that is opened ends with exactly one terminal unit and is then
  closed. When the handler has set the stream header, started the stream or written
  anything, what it has written is a sequence of status units followed by exactly one
  summary unit, and the response is finished. The outer \<^verbatim>\<open>catch\<close>, entered on a
  started stream that holds no terminal unit yet, appends exactly one error unit and
  finishes the response.
\<close>

theorem stream_ends_once:
  "(stream_opened (send_emails e req) \<longrightarrow>
      (\<exists>progress summary.
         written (res (send_emails e req)) = progress @ [CompleteUnit summary] \<and>
         filter is_terminal_unit progress = []) \<and>
      length (filter is_terminal_unit (written (res (send_emails e req)))) = 1 \<and>
      ended (res (send_emails e req))) \<and>
   (\<forall>err s. sseStarted s \<and> filter is_terminal_unit (written (res s)) = [] \<longrightarrow>
      written (res (send_emails_catch err s))
        = written (res s) @ [ErrorUnit (error_message err ''Failed to send emails'')] \<and>
      length (filter is_terminal_unit (written (res (send_emails_catch err s)))) = 1 \<and>
      ended (res (send_emails_catch err s)))"
proof (intro conjI allI impI)
  assume o: "stream_opened (send_emails e req)"
  have "\<exists>v atts. valid_request e req v atts \<and> verify e (transport_options_of v) = None"
  proof (rule send_emails_cases[where e=e and req=req])
    fix v atts
    assume "valid_request e req v atts" "verify e (transport_options_of v) = None"
    then show ?thesis by blast
  next
    fix v atts err
    assume "valid_request e req v atts" "verify e (transport_options_of v) = Some err"
    from send_emails_unverified[OF this] o show ?thesis
      by (simp add: unverified_not_opened)
  next
    fix c reply
    assume "send_emails e req = res_json c reply initial_state"
    with o show ?thesis by (simp add: rejected_not_opened)
  qed
  then obtain v atts where v: "valid_request e req v atts"
    and ok: "verify e (transport_options_of v) = None" by blast
  note w = send_emails_written[OF v ok]
  show "\<exists>progress summary.
         written (res (send_emails e req)) = progress @ [CompleteUnit summary] \<and>
         filter is_terminal_unit progress = []"
    using w progress_units_not_terminal by blast
  show "length (filter is_terminal_unit (written (res (send_emails e req)))) = 1"
    by (simp add: w progress_units_not_terminal)
  show "ended (res (send_emails e req))"
    by (simp add: send_emails_valid[OF v ok] stream_batch_ended)
next
  fix err and s :: handler_state
  assume a: "sseStarted s \<and> filter is_terminal_unit (written (res s)) = []"
  then show "written (res (send_emails_catch err s))
        = written (res s) @ [ErrorUnit (error_message err ''Failed to send emails'')]"
    by (simp add: res_end_def res_write_def)
  from a show "length (filter is_terminal_unit (written (res (send_emails_catch err s)))) = 1"
    by (simp add: res_end_def res_write_def)
  from a show "ended (res (send_emails_catch err s))"
    by (simp add: res_end_def res_write_def)
qed

theorem stream_ends_once_witness:
  "stream_opened (send_emails example_env example_request) \<and>
   length (filter is_terminal_unit (written (res (send_emails example_env example_request)))) = 1 \<and>
   ended (res (send_emails example_env example_request))"
proof -
  have "stream_opened (send_emails example_env example_request)"
    by (simp add: stream_opened_def send_emails_valid[OF example_valid example_verified]
          stream_batch_sseStarted)
  with stream_ends_once[of example_env example_request] show ?thesis by blast
qed



section \<open>The content of the messages\<close>

subsection \<open>The plain-text body\<close>

text \<open>Some opening angle bracket is followed, anywhere later, by a closing one.\<close>

fun has_tag :: "string \<Rightarrow> bool" where
  "has_tag [] = False"
| "has_tag (c # cs) = ((c = CHR ''<'' \<and> CHR ''>'' \<in> set cs) \<or> has_tag cs)"

lemma strip_tags_unclosed:
  assumes "CHR ''>'' \<notin> set cs"
  shows "strip_tags (CHR ''<'' # cs) = CHR ''<'' # strip_tags cs"
proof -
  from assms have "dropWhile (\<lambda>x. x \<noteq> CHR ''>'') cs = []" by auto
  then show ?thesis by (simp only: strip_tags.simps list.case if_True simp_thms)
qed

lemma strip_tags_closed:
  assumes "dropWhile (\<lambda>x. x \<noteq> CHR ''>'') cs = g # rest"
  shows "strip_tags (CHR ''<'' # cs) = strip_tags rest"
  using assms by (simp only: strip_tags.simps list.case if_True simp_thms)

lemma strip_tags_other:
  "c \<noteq> CHR ''<'' \<Longrightarrow> strip_tags (c # cs) = c # strip_tags cs"
  by simp

declare strip_tags.simps(2) [simp del]

lemma dropWhile_closing_cases:
  obtains (unclosed) "CHR ''>'' \<notin> set cs"
  | (closed) g rest where "dropWhile (\<lambda>x. x \<noteq> CHR ''>'') cs = g # rest" "set rest \<subseteq> set cs"
proof (cases "dropWhile (\<lambda>x. x \<noteq> CHR ''>'') cs")
  case Nil
  then have "CHR ''>'' \<notin> set cs" by auto
  then show ?thesis by (rule unclosed)
next
  case (Cons g rest)
  have "set (dropWhile (\<lambda>x. x \<noteq> CHR ''>'') cs) \<subseteq> set cs"
    using set_dropWhileD by fastforce
  with Cons have "set rest \<subseteq> set cs" by auto
  with Cons show ?thesis by (rule closed)
qed

lemma strip_tags_set: "set (strip_tags s) \<subseteq> set s"
proof (induction s rule: strip_tags.induct)
  case 1
  show ?case by simp
next
  case (2 c cs)
  show ?case
  proof (cases "c = CHR ''<''")
    case False
    with 2(3) show ?thesis by (auto simp: strip_tags_other)
  next
    case True
    show ?thesis
    proof (rule dropWhile_closing_cases[of cs])
      assume u: "CHR ''>'' \<notin> set cs"
      then have "dropWhile (\<lambda>x. x \<noteq> CHR ''>'') cs = []" by auto
      from 2(1)[OF True this] show ?thesis
        using True by (auto simp: strip_tags_unclosed[OF u])
    next
      fix g rest
      assume d: "dropWhile (\<lambda>x. x \<noteq> CHR ''>'') cs = g # rest" and r: "set rest \<subseteq> set cs"
      from 2(2)[OF True d] r show ?thesis
        using True by (auto simp: strip_tags_closed[OF d])
    qed
  qed
qed

lemma strip_tags_no_tag: "\<not> has_tag (strip_tags s)"
proof (induction s rule: strip_tags.induct)
  case 1
  show ?case by simp
next
  case (2 c cs)
  show ?case
  proof (cases "c = CHR ''<''")
    case False
    with 2(3) show ?thesis by (simp add: strip_tags_other)
  next
    case True
    show ?thesis
    proof (rule dropWhile_closing_cases[of cs])
      assume u: "CHR ''>'' \<notin> set cs"
      then have "dropWhile (\<lambda>x. x \<noteq> CHR ''>'') cs = []" by auto
      from 2(1)[OF True this] have ih: "\<not> has_tag (strip_tags cs)" .
      from u strip_tags_set[of cs] have "CHR ''>'' \<notin> set (strip_tags cs)" by blast
      with ih show ?thesis
        using True by (simp add: strip_tags_unclosed[OF u])
    next
      fix g rest
      assume d: "dropWhile (\<lambda>x. x \<noteq> CHR ''>'') cs = g # rest"
      from 2(2)[OF True d] show ?thesis
        using True by (simp add: strip_tags_closed[OF d])
    qed
  qed
qed

lemma strip_tags_id: "\<not> has_tag s \<Longrightarrow> strip_tags s = s"
proof (induction s)
  case Nil
  show ?case by simp
next
  case (Cons c cs)
  then have ih: "strip_tags cs = cs" by simp
  show ?case
  proof (cases "c = CHR ''<''")
    case False
    with ih show ?thesis by (simp add: strip_tags_other)
  next
    case True
    with Cons.prems have "CHR ''>'' \<notin> set cs" by simp
    from strip_tags_unclosed[OF this] ih True show ?thesis by simp
  qed
qed


lemma schema_Inr_fields:
  assumes "sendEmailRequestSchema em d = Inr v"
  shows "smtpConfigSchema em [Key ''smtpConfig''] (d_smtpConfig d) = Inr (smtpConfig v)"
    and "z_email_array_min1 ''At least one recipient is required'' em [Key ''recipients'']
           (d_recipients d) = Inr (recipients v)"
    and "z_string_min1 ''Subject is required'' [Key ''subject''] (d_subject d) = Inr (subject v)"
    and "z_string_min1 ''Email body is required'' [Key ''htmlBody''] (d_htmlBody d)
           = Inr (htmlBody v)"
    and "z_optional z_string [Key ''textBody''] (d_textBody d) = Inr (textBody v)"
    and "z_optional (z_email_array em) [Key ''cc''] (d_cc d) = Inr (cc v)"
    and "z_optional (z_email_array em) [Key ''bcc''] (d_bcc d) = Inr (bcc v)"
  using assms
  by (auto simp: sendEmailRequestSchema_def Let_def split: sum.splits)

lemma smtpConfig_Inr_fields:
  assumes "smtpConfigSchema em p (Some (JObj kvs)) = Inr c"
  shows "z_string_min1 ''Username is required'' (p @ [Key ''username'']) (map_of kvs ''username'')
           = Inr (username c)"
    and "z_string_min1 ''Password is required'' (p @ [Key ''password'']) (map_of kvs ''password'')
           = Inr (password c)"
    and "z_default (JStr default_host) z_string (p @ [Key ''host'']) (map_of kvs ''host'')
           = Inr (host c)"
    and "z_default (JNum 587) z_number (p @ [Key ''port'']) (map_of kvs ''port'') = Inr (port c)"
    and "z_default (JStr default_fromEmail) (z_string_email em) (p @ [Key ''fromEmail''])
           (map_of kvs ''fromEmail'') = Inr (fromEmail c)"
  using assms
  by (auto simp: Let_def split: sum.splits)

lemma smtpConfig_Inr_object:
  assumes "smtpConfigSchema em p v = Inr c"
  obtains kvs where "v = Some (JObj kvs)"
  using assms by (cases "(em, p, v)" rule: smtpConfigSchema.cases) auto

lemma z_string_min1_Inr:
  "z_string_min1 msg p v = Inr s \<Longrightarrow> v = Some (JStr s) \<and> s \<noteq> []"
  by (cases "(msg, p, v)" rule: z_string_min1.cases) (auto split: if_splits)

lemma z_string_email_Inr:
  "z_string_email em p v = Inr s \<Longrightarrow> v = Some (JStr s) \<and> em s"
  by (cases "(em, p, v)" rule: z_string_email.cases) (auto split: if_splits)

lemma z_string_Inr:
  "z_string p v = Inr s \<Longrightarrow> v = Some (JStr s)"
  by (cases "(p, v)" rule: z_string.cases) auto

lemma fromEmail_of_request:
  assumes "smtpConfigSchema em p (Some (JObj kvs)) = Inr c"
  shows "(map_of kvs ''fromEmail'' = None \<longrightarrow> fromEmail c = default_fromEmail) \<and>
         (\<forall>j. map_of kvs ''fromEmail'' = Some j \<longrightarrow> j = JStr (fromEmail c)) \<and>
         em (fromEmail c)"
proof -
  note f = smtpConfig_Inr_fields(5)[OF assms]
  show ?thesis
  proof (cases "map_of kvs ''fromEmail''")
    case None
    with f have "z_string_email em (p @ [Key ''fromEmail'']) (Some (JStr default_fromEmail))
        = Inr (fromEmail c)"
      by (simp add: z_default_def)
    from z_string_email_Inr[OF this] None show ?thesis by auto
  next
    case (Some j)
    with f have "z_string_email em (p @ [Key ''fromEmail'']) (Some j) = Inr (fromEmail c)"
      by (simp add: z_default_def)
    from z_string_email_Inr[OF this] Some show ?thesis by simp
  qed
qed


lemma strip_tags_first_tag:
  assumes "CHR ''<'' \<notin> set pre" and "CHR ''>'' \<notin> set inner"
  shows "strip_tags (pre @ CHR ''<'' # inner @ CHR ''>'' # post) = pre @ strip_tags post"
  using assms(1)
proof (induction pre)
  case Nil
  have "dropWhile (\<lambda>x. x \<noteq> CHR ''>'') (inner @ CHR ''>'' # post) = CHR ''>'' # post"
    using assms(2) by (induction inner) auto
  from strip_tags_closed[OF this] show ?case by simp
next
  case (Cons c pre)
  then have "c \<noteq> CHR ''<''" and "CHR ''<'' \<notin> set pre" by auto
  with Cons.IH show ?case by (simp add: strip_tags_other)
qed

lemma parse_fields_Some:
  assumes "parse_fields b = Some d"
  shows "d_subject d = b_subject b" and "d_htmlBody d = b_htmlBody b"
    and "d_textBody d = b_textBody b"
    and "\<exists>c. smtpConfigStr b = Some (Text c) \<and> d_smtpConfig d = Some c"
    and "\<exists>r. recipientsStr b = Some (Text r) \<and> d_recipients d = Some r"
proof -
  from assms obtain c r x y where
    c: "JSON_parse (smtpConfigStr b) = Some c" and r: "JSON_parse (recipientsStr b) = Some r" and
    d: "d = \<lparr>d_smtpConfig = Some c, d_recipients = Some r, d_subject = b_subject b,
             d_htmlBody = b_htmlBody b, d_textBody = b_textBody b, d_cc = x, d_bcc = y\<rparr>"
    by (auto simp: parse_fields_def split: option.splits)
  from d show "d_subject d = b_subject b" "d_htmlBody d = b_htmlBody b"
    "d_textBody d = b_textBody b" by simp_all
  from c have "smtpConfigStr b = Some (Text c)"
    by (cases "smtpConfigStr b" rule: JSON_parse.cases) auto
  with d show "\<exists>c. smtpConfigStr b = Some (Text c) \<and> d_smtpConfig d = Some c" by simp
  from r have "recipientsStr b = Some (Text r)"
    by (cases "recipientsStr b" rule: JSON_parse.cases) auto
  with d show "\<exists>r. recipientsStr b = Some (Text r) \<and> d_recipients d = Some r" by simp
qed

lemma z_optional_string_Inr:
  assumes "z_optional z_string p v = Inr t"
  shows "(v = None \<and> t = None) \<or> (\<exists>s. v = Some (JStr s) \<and> t = Some s)"
proof (cases v)
  case None
  with assms show ?thesis by (simp add: z_optional_def)
next
  case (Some j)
  with assms obtain s where "z_string p (Some j) = Inr s" and "t = Some s"
    by (auto simp: z_optional_def split: sum.splits)
  with z_string_Inr[of p "Some j" s] Some show ?thesis by simp
qed

lemma valid_request_parsed:
  assumes "valid_request e req v atts" and "body req = Some b"
  obtains d where "parse_fields b = Some d" "sendEmailRequestSchema (zod_email e) d = Inr v"
  using assms by (auto simp: valid_request_def split: option.splits)

lemma dispatched_message:
  assumes "valid_request e req v atts"
      and "sendMail_call t m \<in> set (calls (send_emails e req))"
  shows "t = transport_options_of v \<and> (\<exists>r\<in>set (recipients v). m = mailOptions_of v atts r)"
proof (cases "verify e (transport_options_of v)")
  case None
  from assms(2) show ?thesis
    by (auto simp: send_emails_calls[OF assms(1) None])
next
  case (Some err)
  from assms(2) show ?thesis
    by (simp add: send_emails_unverified[OF assms(1) Some] res_json_def call_def initial_state_def)
qed

text \<open>
  C10. The plain-text part of every message handed to the mail library. For a request
  that passes validation, the HTML part is the request's \<^verbatim>\<open>htmlBody\<close>; when
  \<^verbatim>\<open>textBody\<close> is absent or the empty string the text part is \<^verbatim>\<open>htmlBody\<close> with its
  tags stripped, and when \<^verbatim>\<open>textBody\<close> is a non-empty string the text part is that
  string, unchanged. Stripping leaves no opening bracket that is followed by a closing
  one, adds no character, leaves a text without tags as it is, and removes the leftmost
  tag (from the first opening bracket to the next closing one) before going on with
  what follows it.
\<close>

theorem text_body_of_messages:
  assumes "valid_request e req v atts" and "body req = Some b"
      and "sendMail_call t m \<in> set (calls (send_emails e req))"
  shows "b_htmlBody b = Some (JStr (htmlBody v)) \<and>
         m_html m = htmlBody v \<and>
         (b_textBody b = None \<or> b_textBody b = Some (JStr []) \<longrightarrow>
            m_text m = strip_tags (htmlBody v)) \<and>
         (\<forall>x. b_textBody b = Some (JStr x) \<and> x \<noteq> [] \<longrightarrow> m_text m = x) \<and>
         \<not> has_tag (strip_tags (htmlBody v)) \<and>
         set (strip_tags (htmlBody v)) \<subseteq> set (htmlBody v) \<and>
         (\<not> has_tag (htmlBody v) \<longrightarrow> strip_tags (htmlBody v) = htmlBody v) \<and>
         (\<forall>pre inner post.
            htmlBody v = pre @ CHR ''<'' # inner @ CHR ''>'' # post \<and>
            CHR ''<'' \<notin> set pre \<and> CHR ''>'' \<notin> set inner \<longrightarrow>
            strip_tags (htmlBody v) = pre @ strip_tags post)"
proof -
  from assms(1,2) obtain d where d: "parse_fields b = Some d"
    and v: "sendEmailRequestSchema (zod_email e) d = Inr v"
    by (rule valid_request_parsed)
  from dispatched_message[OF assms(1,3)] obtain r where m: "m = mailOptions_of v atts r"
    by blast
  from z_string_min1_Inr[OF schema_Inr_fields(4)[OF v]] parse_fields_Some(2)[OF d]
  have h: "b_htmlBody b = Some (JStr (htmlBody v))" by simp
  have tb: "d_textBody d = b_textBody b" by (rule parse_fields_Some(3)[OF d])
  from z_optional_string_Inr[OF schema_Inr_fields(5)[OF v]] tb
  have t: "(b_textBody b = None \<and> textBody v = None)
           \<or> (\<exists>s. b_textBody b = Some (JStr s) \<and> textBody v = Some s)"
    by simp
  have t1: "b_textBody b = None \<or> b_textBody b = Some (JStr []) \<longrightarrow>
            m_text m = strip_tags (htmlBody v)"
    using t by (auto simp: m mailOptions_of_def)
  have t2: "\<forall>x. b_textBody b = Some (JStr x) \<and> x \<noteq> [] \<longrightarrow> m_text m = x"
    using t by (auto simp: m mailOptions_of_def)
  have t3: "\<forall>pre inner post.
            htmlBody v = pre @ CHR ''<'' # inner @ CHR ''>'' # post \<and>
            CHR ''<'' \<notin> set pre \<and> CHR ''>'' \<notin> set inner \<longrightarrow>
            strip_tags (htmlBody v) = pre @ strip_tags post"
    using strip_tags_first_tag by simp
  have "m_html m = htmlBody v" by (simp add: m mailOptions_of_def)
  with h t1 t2 t3 strip_tags_no_tag strip_tags_set strip_tags_id show ?thesis by blast
qed


text \<open>The example request with a plain-text body of its own.\<close>

definition text_request :: request where
  "text_request = \<lparr>body = Some (example_body\<lparr>b_textBody := Some (JStr ''Hi there'')\<rparr>), files = Some []\<rparr>"

lemma text_request_valid:
  "valid_request example_env text_request (example_validated\<lparr>textBody := Some ''Hi there''\<rparr>) []"
  by (simp add: valid_request_def example_env_def text_request_def example_body_def
        example_validated_def parse_fields_def sendEmailRequestSchema_def z_default_def
        z_optional_def default_host_def default_fromEmail_def)

theorem text_body_of_messages_witness:
  "valid_request example_env example_request example_validated [] \<and>
   body example_request = Some example_body \<and>
   sendMail_call (transport_options_of example_validated)
       (mailOptions_of example_validated [] ''a@x.com'')
     \<in> set (calls (send_emails example_env example_request)) \<and>
   b_textBody example_body = None \<and>
   htmlBody example_validated = ''<p>Hi</p>'' \<and>
   m_text (mailOptions_of example_validated [] ''a@x.com'') = ''Hi'' \<and>
   valid_request example_env text_request (example_validated\<lparr>textBody := Some ''Hi there''\<rparr>) [] \<and>
   sendMail_call (transport_options_of (example_validated\<lparr>textBody := Some ''Hi there''\<rparr>))
       (mailOptions_of (example_validated\<lparr>textBody := Some ''Hi there''\<rparr>) [] ''b@x.com'')
     \<in> set (calls (send_emails example_env text_request)) \<and>
   m_text (mailOptions_of (example_validated\<lparr>textBody := Some ''Hi there''\<rparr>) [] ''b@x.com'')
     = ''Hi there''"
proof -
  have b: "body example_request = Some example_body"
    by (simp add: example_request_def)
  have c: "sendMail_call (transport_options_of example_validated)
       (mailOptions_of example_validated [] ''a@x.com'')
     \<in> set (calls (send_emails example_env example_request))"
    by (simp add: example_calls)
  have n: "b_textBody example_body = None"
    by (simp add: example_body_def)
  have h: "htmlBody example_validated = ''<p>Hi</p>''"
    by (simp add: example_validated_def)
  have s: "strip_tags ''<p>Hi</p>'' = ''Hi''"
    by (simp add: strip_tags.simps(2))
  from text_body_of_messages[OF example_valid b c] n h s
  have m: "m_text (mailOptions_of example_validated [] ''a@x.com'') = ''Hi''"
    by simp
  have b': "body text_request = Some (example_body\<lparr>b_textBody := Some (JStr ''Hi there'')\<rparr>)"
    by (simp add: text_request_def)
  let ?v = "example_validated\<lparr>textBody := Some ''Hi there''\<rparr>"
  have ok: "verify example_env (transport_options_of ?v) = None"
    by (simp add: example_env_def)
  have r: "recipients ?v = [''a@x.com'', ''b@x.com'']"
    by (simp add: example_validated_def)
  have c': "sendMail_call (transport_options_of ?v) (mailOptions_of ?v [] ''b@x.com'')
      \<in> set (calls (send_emails example_env text_request))"
    by (simp add: send_emails_calls[OF text_request_valid ok] r)
  have bt: "b_textBody (example_body\<lparr>b_textBody := Some (JStr ''Hi there'')\<rparr>)
      = Some (JStr ''Hi there'')"
    by simp
  from text_body_of_messages[OF text_request_valid b' c'] bt
  have m': "m_text (mailOptions_of ?v [] ''b@x.com'') = ''Hi there''"
    by simp
  show ?thesis
    by (intro conjI) (rule example_valid b c n h m text_request_valid c' m')+
qed

subsection \<open>The sender address\<close>

record EmailFormData =
  smtpUsername :: string
  smtpPassword :: string
  f_subject :: string
  f_htmlBody :: string
  recipientsText :: string
  f_cc :: "string option"
  f_bcc :: "string option"

text \<open>
  The \<^verbatim>\<open>smtpConfig\<close> object that the form's \<^verbatim>\<open>onSubmit\<close> builds and appends as JSON
  text; parsing that text on the server gives the object back.
\<close>

definition onSubmit_smtpConfig :: "EmailFormData \<Rightarrow> json" where
  "onSubmit_smtpConfig data =
     JObj [(''username'', JStr (smtpUsername data)),
           (''password'', JStr (smtpPassword data)),
           (''host'', JStr ''smtp.zeptomail.in''),
           (''port'', JNum 587),
           (''fromEmail'', JStr ''crmsupport@legacylifespaces.com'')]"

text \<open>
  Where the sender address of a message comes from: it is the \<^verbatim>\<open>fromEmail\<close> of the
  validated request, that is, the \<^verbatim>\<open>fromEmail\<close> entry of the \<^verbatim>\<open>smtpConfig\<close> object
  in the request when there is one and the default address when there is none. The
  object built by the form's \<^verbatim>\<open>onSubmit\<close> always carries the default address.
\<close>

lemma from_address_of_request:
  assumes "valid_request e req v atts" and "body req = Some b"
      and "sendMail_call t m \<in> set (calls (send_emails e req))"
  shows "m_from m = fromEmail (smtpConfig v) \<and>
         zod_email e (m_from m) \<and>
         (\<exists>kvs. smtpConfigStr b = Some (Text (JObj kvs)) \<and>
            (map_of kvs ''fromEmail'' = None \<longrightarrow> m_from m = ''crmsupport@legacylifespaces.com'') \<and>
            (\<forall>j. map_of kvs ''fromEmail'' = Some j \<longrightarrow> j = JStr (m_from m))) \<and>
         (\<forall>data. smtpConfigStr b = Some (Text (onSubmit_smtpConfig data)) \<longrightarrow>
            m_from m = ''crmsupport@legacylifespaces.com'')"
proof -
  from assms(1,2) obtain d where d: "parse_fields b = Some d"
    and v: "sendEmailRequestSchema (zod_email e) d = Inr v"
    by (rule valid_request_parsed)
  from dispatched_message[OF assms(1,3)] obtain r where "m = mailOptions_of v atts r"
    by blast
  then have m: "m_from m = fromEmail (smtpConfig v)"
    by (simp add: mailOptions_of_def)
  note c = schema_Inr_fields(1)[OF v]
  from c obtain kvs where k: "d_smtpConfig d = Some (JObj kvs)"
    by (rule smtpConfig_Inr_object)
  with parse_fields_Some(4)[OF d] have sk: "smtpConfigStr b = Some (Text (JObj kvs))"
    by auto
  from c k have "smtpConfigSchema (zod_email e) [Key ''smtpConfig''] (Some (JObj kvs))
      = Inr (smtpConfig v)" by simp
  note f = fromEmail_of_request[OF this]
  from f m have e: "zod_email e (m_from m)" by simp
  from f m have k1: "map_of kvs ''fromEmail'' = None \<longrightarrow> m_from m = ''crmsupport@legacylifespaces.com''"
    by (simp add: default_fromEmail_def)
  from f m have k2: "\<forall>j. map_of kvs ''fromEmail'' = Some j \<longrightarrow> j = JStr (m_from m)"
    by simp
  have u: "\<forall>data. smtpConfigStr b = Some (Text (onSubmit_smtpConfig data)) \<longrightarrow>
            m_from m = ''crmsupport@legacylifespaces.com''"
  proof (intro allI impI)
    fix data
    assume "smtpConfigStr b = Some (Text (onSubmit_smtpConfig data))"
    with sk have "kvs = [(''username'', JStr (smtpUsername data)),
           (''password'', JStr (smtpPassword data)),
           (''host'', JStr ''smtp.zeptomail.in''),
           (''port'', JNum 587),
           (''fromEmail'', JStr ''crmsupport@legacylifespaces.com'')]"
      by (simp add: onSubmit_smtpConfig_def)
    then have "map_of kvs ''fromEmail'' = Some (JStr ''crmsupport@legacylifespaces.com'')"
      by simp
    with k2 show "m_from m = ''crmsupport@legacylifespaces.com''" by simp
  qed
  have x: "\<exists>kvs. smtpConfigStr b = Some (Text (JObj kvs)) \<and>
            (map_of kvs ''fromEmail'' = None \<longrightarrow> m_from m = ''crmsupport@legacylifespaces.com'') \<and>
            (\<forall>j. map_of kvs ''fromEmail'' = Some j \<longrightarrow> j = JStr (m_from m))"
  proof (intro exI[of _ kvs] conjI)
    show "smtpConfigStr b = Some (Text (JObj kvs))" by (rule sk)
    show "map_of kvs ''fromEmail'' = None \<longrightarrow> m_from m = ''crmsupport@legacylifespaces.com''"
      by (rule k1)
    show "\<forall>j. map_of kvs ''fromEmail'' = Some j \<longrightarrow> j = JStr (m_from m)" by (rule k2)
  qed
  show ?thesis
  proof (intro conjI)
    show "m_from m = fromEmail (smtpConfig v)" by (rule m)
    show "zod_email e (m_from m)" by (rule e)
    show "\<exists>kvs. smtpConfigStr b = Some (Text (JObj kvs)) \<and>
            (map_of kvs ''fromEmail'' = None \<longrightarrow> m_from m = ''crmsupport@legacylifespaces.com'') \<and>
            (\<forall>j. map_of kvs ''fromEmail'' = Some j \<longrightarrow> j = JStr (m_from m))" by (rule x)
    show "\<forall>data. smtpConfigStr b = Some (Text (onSubmit_smtpConfig data)) \<longrightarrow>
            m_from m = ''crmsupport@legacylifespaces.com''" by (rule u)
  qed
qed


text \<open>
  Two requests that differ in nothing but the \<^verbatim>\<open>fromEmail\<close> entry of their
  \<^verbatim>\<open>smtpConfig\<close>: the address the form sends and another one.
\<close>

definition request_from :: "string \<Rightarrow> request" where
  "request_from addr =
     \<lparr>body = Some (example_body\<lparr>smtpConfigStr :=
               Some (Text (JObj [(''username'', JStr ''user''), (''password'', JStr ''secret''),
                                 (''host'', JStr ''smtp.zeptomail.in''), (''port'', JNum 587),
                                 (''fromEmail'', JStr addr)]))\<rparr>),
      files = Some []\<rparr>"

definition from_addresses :: "transport_call list \<Rightarrow> string list" where
  "from_addresses cs =
     concat (map (\<lambda>c. case c of sendMail_call t m \<Rightarrow> [m_from m] | _ \<Rightarrow> []) cs)"

lemma request_from_valid:
  "CHR ''@'' \<in> set addr \<Longrightarrow>
   valid_request example_env (request_from addr)
     (example_validated\<lparr>smtpConfig := (smtpConfig example_validated)\<lparr>fromEmail := addr\<rparr>\<rparr>) []"
  by (simp add: valid_request_def example_env_def request_from_def example_body_def
        example_validated_def parse_fields_def sendEmailRequestSchema_def z_default_def
        z_optional_def default_host_def)

lemma request_from_addresses:
  assumes "CHR ''@'' \<in> set addr"
  shows "from_addresses (calls (send_emails example_env (request_from addr))) = [addr, addr]"
proof -
  let ?v = "example_validated\<lparr>smtpConfig := (smtpConfig example_validated)\<lparr>fromEmail := addr\<rparr>\<rparr>"
  have ok: "verify example_env (transport_options_of ?v) = None"
    by (simp add: example_env_def)
  have r: "recipients ?v = [''a@x.com'', ''b@x.com'']"
    by (simp add: example_validated_def)
  show ?thesis
    by (simp add: send_emails_calls[OF request_from_valid[OF assms] ok] r from_addresses_def
          mailOptions_of_def)
qed

text \<open>The form data behind the first of the two requests.\<close>

definition example_form :: EmailFormData where
  "example_form =
     \<lparr>smtpUsername = ''user'', smtpPassword = ''secret'', f_subject = ''Hello'',
      f_htmlBody = ''<p>Hi</p>'', recipientsText = ''a@x.com b@x.com'', f_cc = None,
      f_bcc = None\<rparr>"

text \<open>
  C3. The sender address is fixed by policy and is not the caller's to choose: two
  requests that differ only in the \<^verbatim>\<open>fromEmail\<close> they carry must give the same sender
  on every message. The handler does not keep to this. Of the two requests below the
  first carries the \<^verbatim>\<open>smtpConfig\<close> that the form's \<^verbatim>\<open>onSubmit\<close> builds and the
  second differs from it in the \<^verbatim>\<open>fromEmail\<close> entry alone; both are accepted, the
  messages of the first are sent from the policy address and those of the second from
  the address its caller wrote.
\<close>

theorem forged_from_address_is_dispatched:
  "map_option smtpConfigStr (body (request_from ''crmsupport@legacylifespaces.com''))
     = Some (Some (Text (onSubmit_smtpConfig example_form))) \<and>
   from_addresses (calls (send_emails example_env (request_from ''crmsupport@legacylifespaces.com'')))
     = [''crmsupport@legacylifespaces.com'', ''crmsupport@legacylifespaces.com''] \<and>
   from_addresses (calls (send_emails example_env (request_from ''ceo@other.example'')))
     = [''ceo@other.example'', ''ceo@other.example''] \<and>
   ''ceo@other.example'' \<noteq> default_fromEmail"
proof -
  have a: "CHR ''@'' \<in> set ''crmsupport@legacylifespaces.com''" by simp
  have b: "CHR ''@'' \<in> set ''ceo@other.example''" by simp
  have c: "map_option smtpConfigStr (body (request_from ''crmsupport@legacylifespaces.com''))
     = Some (Some (Text (onSubmit_smtpConfig example_form)))"
    by (simp add: request_from_def onSubmit_smtpConfig_def example_form_def)
  have d: "''ceo@other.example'' \<noteq> default_fromEmail"
    by (simp add: default_fromEmail_def)
  show ?thesis
    by (intro conjI) (rule c request_from_addresses[OF a] request_from_addresses[OF b] d)+
qed

section \<open>The validation report\<close>

lemma z_elements_issues:
  "issues_of (z_elements inner p i (x # xs))
     = issues_of (inner (p @ [Idx i]) (Some x)) @ issues_of (z_elements inner p (Suc i) xs)"
  by (simp split: sum.splits)

lemma smtpConfig_issues:
  "issues_of (smtpConfigSchema em p (Some (JObj kvs)))
     = issues_of (z_string_min1 ''Username is required'' (p @ [Key ''username''])
                    (map_of kvs ''username''))
       @ issues_of (z_string_min1 ''Password is required'' (p @ [Key ''password''])
                      (map_of kvs ''password''))
       @ issues_of (z_default (JStr default_host) z_string (p @ [Key ''host''])
                      (map_of kvs ''host''))
       @ issues_of (z_default (JNum 587) z_number (p @ [Key ''port'']) (map_of kvs ''port''))
       @ issues_of (z_default (JStr default_fromEmail) (z_string_email em)
                      (p @ [Key ''fromEmail'']) (map_of kvs ''fromEmail''))"
  by (simp add: Let_def split: sum.splits)

lemma schema_issues:
  "issues_of (sendEmailRequestSchema em d)
     = issues_of (smtpConfigSchema em [Key ''smtpConfig''] (d_smtpConfig d))
       @ issues_of (z_email_array_min1 ''At least one recipient is required'' em
                      [Key ''recipients''] (d_recipients d))
       @ issues_of (z_string_min1 ''Subject is required'' [Key ''subject''] (d_subject d))
       @ issues_of (z_string_min1 ''Email body is required'' [Key ''htmlBody''] (d_htmlBody d))
       @ issues_of (z_optional z_string [Key ''textBody''] (d_textBody d))
       @ issues_of (z_optional (z_email_array em) [Key ''cc''] (d_cc d))
       @ issues_of (z_optional (z_email_array em) [Key ''bcc''] (d_bcc d))"
  by (simp add: sendEmailRequestSchema_def Let_def split: sum.splits)


text \<open>
  The constraints the specification lists for a request, read off the parsed fields: the
  credentials are present and non-empty, there is at least one recipient, every
  recipient is a valid address, the subject and the HTML body are non-empty.
  \<open>spec_violations\<close> gives the place of every constraint that does not hold.
\<close>

definition nonempty_string :: "js_value \<Rightarrow> bool" where
  "nonempty_string v = (case v of Some (JStr s) \<Rightarrow> s \<noteq> [] | _ \<Rightarrow> False)"

definition valid_address :: "(string \<Rightarrow> bool) \<Rightarrow> json \<Rightarrow> bool" where
  "valid_address em x = (case x of JStr s \<Rightarrow> em s | _ \<Rightarrow> False)"

definition spec_violations :: "(string \<Rightarrow> bool) \<Rightarrow> requestData \<Rightarrow> path_elem list list" where
  "spec_violations em d =
     (case d_smtpConfig d of
        Some (JObj kvs) \<Rightarrow>
          (if nonempty_string (map_of kvs ''username'') then []
           else [[Key ''smtpConfig'', Key ''username'']])
          @ (if nonempty_string (map_of kvs ''password'') then []
             else [[Key ''smtpConfig'', Key ''password'']])
      | _ \<Rightarrow> [[Key ''smtpConfig'']])
     @ (case d_recipients d of
          Some (JArr xs) \<Rightarrow>
            (if xs = [] then [[Key ''recipients'']] else [])
            @ map (\<lambda>i. [Key ''recipients'', Idx i])
                (filter (\<lambda>i. \<not> valid_address em (xs ! i)) [0..<length xs])
        | _ \<Rightarrow> [[Key ''recipients'']])
     @ (if nonempty_string (d_subject d) then [] else [[Key ''subject'']])
     @ (if nonempty_string (d_htmlBody d) then [] else [[Key ''htmlBody'']])"

lemma z_string_min1_issue:
  "\<not> nonempty_string v \<Longrightarrow> p \<in> path ` set (issues_of (z_string_min1 msg p v))"
  by (cases "(msg, p, v)" rule: z_string_min1.cases)
     (auto simp: nonempty_string_def invalid_type_def too_small_def)

lemma z_string_email_issue:
  "\<not> valid_address em x \<Longrightarrow> p \<in> path ` set (issues_of (z_string_email em p (Some x)))"
  by (cases x) (auto simp: valid_address_def invalid_type_def invalid_string_def)

lemma z_elements_issue:
  "i < length xs \<Longrightarrow> \<not> valid_address em (xs ! i) \<Longrightarrow>
   p @ [Idx (k + i)] \<in> path ` set (issues_of (z_elements (z_string_email em) p k xs))"
proof (induction xs arbitrary: i k)
  case Nil
  then show ?case by simp
next
  case (Cons x xs)
  show ?case
  proof (cases i)
    case 0
    with Cons.prems have "\<not> valid_address em x" by simp
    from z_string_email_issue[OF this, of "p @ [Idx k]"] 0 show ?thesis
      by (simp only: z_elements_issues set_append image_Un Un_iff add_0_right) simp
  next
    case (Suc j)
    with Cons.prems have "j < length xs" and "\<not> valid_address em (xs ! j)" by simp_all
    from Cons.IH[OF this, of "Suc k"] Suc show ?thesis
      by (simp only: z_elements_issues set_append image_Un Un_iff add_Suc_right add_Suc) simp
  qed
qed

lemma recipients_issues:
  "set (case v of
          Some (JArr xs) \<Rightarrow>
            (if xs = [] then [[Key ''recipients'']] else [])
            @ map (\<lambda>i. [Key ''recipients'', Idx i])
                (filter (\<lambda>i. \<not> valid_address em (xs ! i)) [0..<length xs])
        | _ \<Rightarrow> [[Key ''recipients'']])
   \<subseteq> path ` set (issues_of (z_email_array_min1 msg em [Key ''recipients''] v))"
proof (cases "(msg, em, [Key ''recipients''], v)" rule: z_email_array_min1.cases)
  case (1 msg' em' p xs)
  then have v: "v = Some (JArr xs)" by simp
  show ?thesis
  proof (cases "xs = []")
    case True
    with v show ?thesis by (simp add: too_small_def)
  next
    case False
    have "\<And>i. i < length xs \<Longrightarrow> \<not> valid_address em (xs ! i) \<Longrightarrow>
      [Key ''recipients'', Idx i]
        \<in> path ` set (issues_of (z_elements (z_string_email em) [Key ''recipients''] 0 xs))"
      using z_elements_issue[of _ xs em "[Key ''recipients'']" 0] by simp
    with v False show ?thesis by auto
  qed
qed (auto simp: invalid_type_def)

lemma smtpConfig_violations:
  "set (case v of
        Some (JObj kvs) \<Rightarrow>
          (if nonempty_string (map_of kvs ''username'') then []
           else [[Key ''smtpConfig'', Key ''username'']])
          @ (if nonempty_string (map_of kvs ''password'') then []
             else [[Key ''smtpConfig'', Key ''password'']])
      | _ \<Rightarrow> [[Key ''smtpConfig'']])
   \<subseteq> path ` set (issues_of (smtpConfigSchema em [Key ''smtpConfig''] v))"
proof (cases "(em, [Key ''smtpConfig''], v)" rule: smtpConfigSchema.cases)
  case (1 em' p kvs)
  then have v: "v = Some (JObj kvs)" by simp
  have u: "\<not> nonempty_string (map_of kvs ''username'') \<Longrightarrow>
      [Key ''smtpConfig'', Key ''username'']
        \<in> path ` set (issues_of (z_string_min1 ''Username is required''
              ([Key ''smtpConfig''] @ [Key ''username'']) (map_of kvs ''username'')))"
    using z_string_min1_issue[of "map_of kvs ''username''" "[Key ''smtpConfig''] @ [Key ''username'']"]
    by simp
  have w: "\<not> nonempty_string (map_of kvs ''password'') \<Longrightarrow>
      [Key ''smtpConfig'', Key ''password'']
        \<in> path ` set (issues_of (z_string_min1 ''Password is required''
              ([Key ''smtpConfig''] @ [Key ''password'']) (map_of kvs ''password'')))"
    using z_string_min1_issue[of "map_of kvs ''password''" "[Key ''smtpConfig''] @ [Key ''password'']"]
    by simp
  from u w show ?thesis
    unfolding v smtpConfig_issues by (auto simp del: smtpConfigSchema.simps)
qed (auto simp: invalid_type_def)

lemma spec_violations_reported:
  "set (spec_violations em d) \<subseteq> path ` set (issues_of (sendEmailRequestSchema em d))"
proof -
  have s: "\<not> nonempty_string (d_subject d) \<Longrightarrow> [Key ''subject'']
      \<in> path ` set (issues_of (z_string_min1 ''Subject is required'' [Key ''subject''] (d_subject d)))"
    by (rule z_string_min1_issue)
  have h: "\<not> nonempty_string (d_htmlBody d) \<Longrightarrow> [Key ''htmlBody'']
      \<in> path ` set (issues_of (z_string_min1 ''Email body is required'' [Key ''htmlBody''] (d_htmlBody d)))"
    by (rule z_string_min1_issue)
  note c = smtpConfig_violations[where v="d_smtpConfig d" and em=em]
  note r = recipients_issues[where v="d_recipients d" and em=em
             and msg="''At least one recipient is required''"]
  have "set (spec_violations em d)
      = set (case d_smtpConfig d of
        Some (JObj kvs) \<Rightarrow>
          (if nonempty_string (map_of kvs ''username'') then []
           else [[Key ''smtpConfig'', Key ''username'']])
          @ (if nonempty_string (map_of kvs ''password'') then []
             else [[Key ''smtpConfig'', Key ''password'']])
      | _ \<Rightarrow> [[Key ''smtpConfig'']])
      \<union> set (case d_recipients d of
          Some (JArr xs) \<Rightarrow>
            (if xs = [] then [[Key ''recipients'']] else [])
            @ map (\<lambda>i. [Key ''recipients'', Idx i])
                (filter (\<lambda>i. \<not> valid_address em (xs ! i)) [0..<length xs])
        | _ \<Rightarrow> [[Key ''recipients'']])
      \<union> (if nonempty_string (d_subject d) then {} else {[Key ''subject'']})
      \<union> (if nonempty_string (d_htmlBody d) then {} else {[Key ''htmlBody'']})"
    by (simp add: spec_violations_def Un_assoc)
  with c r s h show ?thesis
    unfolding schema_issues set_append image_Un by (auto split: if_splits)
qed


lemma send_emails_schema_failure:
  assumes "body req = Some b" and "parse_fields b = Some d"
      and "sendEmailRequestSchema (zod_email e) d = Inl errs"
  shows "send_emails e req
           = res_json 400 \<lparr>r_message = ''Invalid request data'', r_errors = Some errs\<rparr> initial_state"
  using assms by (simp add: send_emails_def send_emails_try_def)

text \<open>
  C9. A schema failure is answered with every issue at once. For a request whose JSON
  fields parse: if any constraint of the specification is violated the schema fails;
  and whenever the schema fails, the handler answers with the status 400 and the whole
  list of issues the schema raised, without calling the mail library, and that list has
  an issue at the place of every violated constraint: the user name, the password, the
  recipient list, each invalid recipient by its index, the subject and the HTML body.
\<close>

theorem schema_failure_lists_every_issue:
  assumes "body req = Some b" and "parse_fields b = Some d"
  shows "(spec_violations (zod_email e) d \<noteq> [] \<longrightarrow>
            (\<exists>errs. sendEmailRequestSchema (zod_email e) d = Inl errs)) \<and>
         (\<forall>errs. sendEmailRequestSchema (zod_email e) d = Inl errs \<longrightarrow>
            statusCode (res (send_emails e req)) = 400 \<and>
            json_body (res (send_emails e req))
              = Some \<lparr>r_message = ''Invalid request data'', r_errors = Some errs\<rparr> \<and>
            calls (send_emails e req) = [] \<and>
            set (spec_violations (zod_email e) d) \<subseteq> path ` set errs)"
proof (intro conjI allI impI)
  assume n: "spec_violations (zod_email e) d \<noteq> []"
  show "\<exists>errs. sendEmailRequestSchema (zod_email e) d = Inl errs"
  proof (cases "sendEmailRequestSchema (zod_email e) d")
    case (Inl errs)
    then show ?thesis by simp
  next
    case (Inr v)
    with spec_violations_reported[of "zod_email e" d] have "set (spec_violations (zod_email e) d) = {}"
      by simp
    with n show ?thesis by simp
  qed
next
  fix errs
  assume i: "sendEmailRequestSchema (zod_email e) d = Inl errs"
  note r = send_emails_schema_failure[OF assms i]
  show "statusCode (res (send_emails e req)) = 400"
    by (simp add: r res_json_def)
  show "json_body (res (send_emails e req))
              = Some \<lparr>r_message = ''Invalid request data'', r_errors = Some errs\<rparr>"
    by (simp add: r res_json_def)
  show "calls (send_emails e req) = []"
    by (simp add: r res_json_def initial_state_def)
  from spec_violations_reported[of "zod_email e" d] i
  show "set (spec_violations (zod_email e) d) \<subseteq> path ` set errs" by simp
qed

text \<open>
  A request with three faults in its fields: no user name, a second recipient that is
  not an address, an empty subject.
\<close>

definition three_faults_body :: req_body where
  "three_faults_body =
     \<lparr>smtpConfigStr = Some (Text (JObj [(''password'', JStr ''secret'')])),
      recipientsStr = Some (Text (JArr [JStr ''a@x.com'', JStr ''nobody''])),
      b_subject = Some (JStr []),
      b_htmlBody = Some (JStr ''<p>Hi</p>''),
      b_textBody = None,
      ccStr = None,
      bccStr = None\<rparr>"

definition three_faults_data :: requestData where
  "three_faults_data =
     \<lparr>d_smtpConfig = Some (JObj [(''password'', JStr ''secret'')]),
      d_recipients = Some (JArr [JStr ''a@x.com'', JStr ''nobody'']),
      d_subject = Some (JStr []),
      d_htmlBody = Some (JStr ''<p>Hi</p>''),
      d_textBody = None,
      d_cc = None,
      d_bcc = None\<rparr>"

definition three_faults_issues :: "ZodIssue list" where
  "three_faults_issues =
     [\<lparr>code = ''invalid_type'', path = [Key ''smtpConfig'', Key ''username''], message = ''Required''\<rparr>,
      \<lparr>code = ''invalid_string'', path = [Key ''recipients'', Idx 1], message = ''Invalid email''\<rparr>,
      \<lparr>code = ''too_small'', path = [Key ''subject''], message = ''Subject is required''\<rparr>]"

lemma three_faults_parsed: "parse_fields three_faults_body = Some three_faults_data"
  by (simp add: parse_fields_def three_faults_body_def three_faults_data_def)

lemma three_faults_schema:
  "sendEmailRequestSchema (zod_email example_env) three_faults_data = Inl three_faults_issues"
  by (simp add: sendEmailRequestSchema_def three_faults_data_def three_faults_issues_def
        example_env_def z_default_def z_optional_def default_host_def default_fromEmail_def
        invalid_type_def invalid_string_def too_small_def)

theorem schema_failure_lists_every_issue_witness:
  "body \<lparr>body = Some three_faults_body, files = Some []\<rparr> = Some three_faults_body \<and>
   parse_fields three_faults_body = Some three_faults_data \<and>
   sendEmailRequestSchema (zod_email example_env) three_faults_data = Inl three_faults_issues \<and>
   statusCode (res (send_emails example_env \<lparr>body = Some three_faults_body, files = Some []\<rparr>)) = 400 \<and>
   json_body (res (send_emails example_env \<lparr>body = Some three_faults_body, files = Some []\<rparr>))
     = Some \<lparr>r_message = ''Invalid request data'', r_errors = Some three_faults_issues\<rparr> \<and>
   set (spec_violations (zod_email example_env) three_faults_data)
     \<subseteq> path ` set three_faults_issues"
proof -
  let ?req = "\<lparr>body = Some three_faults_body, files = Some []\<rparr>"
  have b: "body ?req = Some three_faults_body" by simp
  from schema_failure_lists_every_issue[OF b three_faults_parsed, of example_env]
  have "\<forall>errs. sendEmailRequestSchema (zod_email example_env) three_faults_data = Inl errs \<longrightarrow>
            statusCode (res (send_emails example_env ?req)) = 400 \<and>
            json_body (res (send_emails example_env ?req))
              = Some \<lparr>r_message = ''Invalid request data'', r_errors = Some errs\<rparr> \<and>
            calls (send_emails example_env ?req) = [] \<and>
            set (spec_violations (zod_email example_env) three_faults_data) \<subseteq> path ` set errs"
    by (rule conjunct2)
  then have "sendEmailRequestSchema (zod_email example_env) three_faults_data
          = Inl three_faults_issues \<longrightarrow>
     statusCode (res (send_emails example_env ?req)) = 400 \<and>
     json_body (res (send_emails example_env ?req))
       = Some \<lparr>r_message = ''Invalid request data'', r_errors = Some three_faults_issues\<rparr> \<and>
     calls (send_emails example_env ?req) = [] \<and>
     set (spec_violations (zod_email example_env) three_faults_data) \<subseteq> path ` set three_faults_issues"
    by (rule spec)
  from this three_faults_schema have
    "statusCode (res (send_emails example_env ?req)) = 400 \<and>
     json_body (res (send_emails example_env ?req))
       = Some \<lparr>r_message = ''Invalid request data'', r_errors = Some three_faults_issues\<rparr> \<and>
     calls (send_emails example_env ?req) = [] \<and>
     set (spec_violations (zod_email example_env) three_faults_data) \<subseteq> path ` set three_faults_issues"
    by (rule mp)
  with b three_faults_parsed three_faults_schema show ?thesis by simp
qed

text \<open>
  A request with an empty subject and an uploaded ZIP archive: the answer names the
  subject alone.
\<close>

definition two_faults_request :: request where
  "two_faults_request =
     \<lparr>body = Some (example_body\<lparr>b_subject := Some (JStr [])\<rparr>),
      files = Some [\<lparr>mimetype = ''application/zip'', originalname = ''all.zip'', buffer = ''PK''\<rparr>]\<rparr>"

theorem unreported_violation_counterexample:
  "json_body (res (send_emails example_env two_faults_request))
     = Some \<lparr>r_message = ''Invalid request data'',
             r_errors = Some [\<lparr>code = ''too_small'', path = [Key ''subject''],
                               message = ''Subject is required''\<rparr>]\<rparr> \<and>
   map mimetype (uploaded two_faults_request) = [''application/zip''] \<and>
   ''application/zip'' \<notin> set allowedFileTypes"
proof -
  have b: "body two_faults_request = Some (example_body\<lparr>b_subject := Some (JStr [])\<rparr>)"
    by (simp add: two_faults_request_def)
  obtain d where d: "parse_fields (example_body\<lparr>b_subject := Some (JStr [])\<rparr>) = Some d"
    and s: "sendEmailRequestSchema (zod_email example_env) d
      = Inl [\<lparr>code = ''too_small'', path = [Key ''subject''], message = ''Subject is required''\<rparr>]"
    by (simp add: parse_fields_def example_body_def sendEmailRequestSchema_def example_env_def
          z_default_def z_optional_def default_host_def default_fromEmail_def too_small_def)
  have "map mimetype (uploaded two_faults_request) = [''application/zip'']"
    by (simp add: uploaded_def two_faults_request_def)
  moreover have "''application/zip'' \<notin> set allowedFileTypes"
    by (simp add: allowedFileTypes_def)
  ultimately show ?thesis
    by (simp add: send_emails_schema_failure[OF b d s] res_json_def)
qed



section \<open>The address extraction\<close>





















































end
